theory Spec2Isabelle
  imports Main "HOL-Library.Sublist" "HOL-Library.AList"
begin

section \<open>Virtual file store: the path-key codec\<close>

text \<open>
  The dashboard keeps the files of a server in a flat map whose keys are encoded paths.
  The two helpers of the source are
  \<^verbatim>\<open>
  const encodeFilePathKey = (filePath) => filePath.replace(/\./g, '__DOT__');
  const decodeFilePathKey = (encodedKey) => encodedKey.replace(/__DOT__/g, '.');
  \<close>
  A JavaScript global replace scans the string from the left and replaces every
  non-overlapping occurrence of the pattern; after a match the scan resumes behind it.
\<close>

fun encodeFilePathKey :: "string \<Rightarrow> string" where
  "encodeFilePathKey [] = []"
| "encodeFilePathKey (c # cs) =
     (if c = CHR ''.'' then ''__DOT__'' @ encodeFilePathKey cs
      else c # encodeFilePathKey cs)"

function decodeFilePathKey :: "string \<Rightarrow> string" where
  "decodeFilePathKey s =
     (if prefix ''__DOT__'' s then CHR ''.'' # decodeFilePathKey (drop 7 s)
      else (case s of [] \<Rightarrow> [] | c # cs \<Rightarrow> c # decodeFilePathKey cs))"
  by pat_completeness auto
termination
  by (relation "measure length") (auto simp: prefix_def)

declare decodeFilePathKey.simps [simp del]

text \<open>
  Paths are brought to forward slashes by \<^verbatim>\<open>.replace(/\\/g, '/')\<close> where the routes
  build or list them; the codec itself does not normalise.
\<close>

definition normalizeSlashes :: "string \<Rightarrow> string" where
  "normalizeSlashes p = map (\<lambda>c. if c = CHR 0x5C then CHR ''/'' else c) p"

text \<open>\<^verbatim>\<open>String.prototype.includes\<close>: does the second string occur in the first?\<close>

fun str_includes :: "string \<Rightarrow> string \<Rightarrow> bool" where
  "str_includes [] t = (t = [])"
| "str_includes (c # cs) t = (prefix t (c # cs) \<or> str_includes cs t)"

section \<open>Virtual file store: the map of files and the rename route\<close>

text \<open>
  \<open>server.files\<close> is a JavaScript \<open>Map\<close> from encoded path to base64 content. It is
  modelled as an association list in insertion order: \<open>has\<close> and \<open>get\<close> look a key up,
  \<open>set\<close> overwrites in place or appends, \<open>delete\<close> removes the key, \<open>keys()\<close> lists
  the keys.
\<close>

type_synonym 'v files = "(string \<times> 'v) list"

definition files_has :: "'v files \<Rightarrow> string \<Rightarrow> bool" where
  "files_has m k = (map_of m k \<noteq> None)"

definition files_get :: "'v files \<Rightarrow> string \<Rightarrow> 'v option" where
  "files_get m k = map_of m k"

definition files_set :: "'v files \<Rightarrow> string \<Rightarrow> 'v \<Rightarrow> 'v files" where
  "files_set m k v = AList.update k v m"

definition files_delete :: "'v files \<Rightarrow> string \<Rightarrow> 'v files" where
  "files_delete m k = AList.delete k m"

definition files_keys :: "'v files \<Rightarrow> string list" where
  "files_keys m = map fst m"

text \<open>\<^verbatim>\<open>k.startsWith(p)\<close>\<close>

definition startsWith :: "string \<Rightarrow> string \<Rightarrow> bool" where
  "startsWith k p = prefix p k"

text \<open>
  \<^verbatim>\<open>server.files.set(newKey, server.files.get(oldKey)); server.files.delete(oldKey);\<close>
  The key moved is always a key of the map where the route runs this; \<open>get\<close> of an absent
  key would give \<open>undefined\<close>, which the content type of the model does not have, so that
  branch only deletes.
\<close>

definition move_key :: "'v files \<Rightarrow> string \<Rightarrow> string \<Rightarrow> 'v files" where
  "move_key m oldKey newKey =
     (case files_get m oldKey of
        Some v \<Rightarrow> files_delete (files_set m newKey v) oldKey
      | None \<Rightarrow> files_delete m oldKey)"

datatype rename_error = NotFoundError | AlreadyExistsError

text \<open>
  The body of \<^verbatim>\<open>app.post('/rename-file')\<close> after the permission and name checks.
  \<open>filePath\<close> is the path renamed and \<open>newFullFilePath\<close> the result of
  \<^verbatim>\<open>path.join(path.dirname(filePath), newName.trim())\<close>, computed by the path library.
  The result pairs the answer (\<open>None\<close> for success) with the map after the request.
\<close>

definition rename_file ::
  "'v files \<Rightarrow> string \<Rightarrow> string \<Rightarrow> rename_error option \<times> 'v files" where
  "rename_file files filePath newFullFilePath =
     (let encodedOldFilePath = encodeFilePathKey filePath;
          encodedNewFullFilePath = encodeFilePathKey newFullFilePath;
          isFile = files_has files encodedOldFilePath;
          isDirectory = (\<not> isFile \<and>
             list_ex (\<lambda>k. startsWith k (encodedOldFilePath @ encodeFilePathKey ''/''))
               (files_keys files));
          newPathExistsAsFile = files_has files encodedNewFullFilePath;
          newPathExistsAsDirectory =
             list_ex (\<lambda>k. startsWith k (encodedNewFullFilePath @ encodeFilePathKey ''/''))
               (files_keys files)
      in if \<not> isFile \<and> \<not> isDirectory then (Some NotFoundError, files)
         else if newPathExistsAsFile \<or> newPathExistsAsDirectory
         then (Some AlreadyExistsError, files)
         else if isFile
         then (None, move_key files encodedOldFilePath encodedNewFullFilePath)
         else
           (let oldPrefix = encodedOldFilePath @ encodeFilePathKey ''/'';
                newPrefix = encodedNewFullFilePath @ encodeFilePathKey ''/'';
                keysToRename = filter (\<lambda>fp. startsWith fp oldPrefix) (files_keys files)
            in (None,
                fold (\<lambda>oldKey m. move_key m oldKey (newPrefix @ drop (length oldPrefix) oldKey))
                  keysToRename files)))"

section \<open>Console log: the persisted rows and the in-memory buffer\<close>

text \<open>
  A row of \<open>appConsoleLogs\<close> in the JSON database:
  \<^verbatim>\<open>{ userId, serverId, timestamp: Date.now(), content }\<close>.
\<close>

record 'c console_row =
  cl_userId :: string
  cl_serverId :: string
  cl_timestamp :: nat
  cl_content :: 'c

text \<open>
  \<^verbatim>\<open>
  export function saveConsoleLog(userId, serverId, content) {
      db.appConsoleLogs.push({ userId, serverId, timestamp: Date.now(), content });
      const MAX = 5000;
      if (db.appConsoleLogs.length > MAX) db.appConsoleLogs.splice(0, db.appConsoleLogs.length - MAX);
  }
  \<close>
  The clock reading \<open>now\<close> is an argument. The list holds the rows of every server, and
  the bound is on the whole list.
\<close>

definition saveConsoleLog ::
  "'c console_row list \<Rightarrow> nat \<Rightarrow> string \<Rightarrow> string \<Rightarrow> 'c \<Rightarrow> 'c console_row list" where
  "saveConsoleLog appConsoleLogs now userId serverId content =
     (let logs = appConsoleLogs @
            [\<lparr>cl_userId = userId, cl_serverId = serverId, cl_timestamp = now, cl_content = content\<rparr>]
      in if length logs > 5000 then drop (length logs - 5000) logs else logs)"

text \<open>
  \<^verbatim>\<open>xs.slice(start)\<close> for an integer \<open>start\<close>: a negative start counts from the end, and
  \<open>-0\<close> is \<open>0\<close>, so \<open>slice(-0)\<close> is the whole array.
\<close>

definition js_slice :: "'a list \<Rightarrow> int \<Rightarrow> 'a list" where
  "js_slice xs start =
     (if start < 0 then drop (nat (max (int (length xs) + start) 0)) xs
      else drop (nat start) xs)"

text \<open>
  \<^verbatim>\<open>
  export function getRecentConsoleLogs(userId, serverId, limit = 100) {
      const rows = db.appConsoleLogs
          .filter(r => r.userId === userId && r.serverId === serverId)
          .sort((a,b) => a.timestamp - b.timestamp)
          .slice(-limit)
          .map(r => r.content);
      return rows;
  }
  \<close>
  \<open>Array.prototype.sort\<close> is stable, as \<open>sort_key\<close> is.
\<close>

definition getRecentConsoleLogs ::
  "'c console_row list \<Rightarrow> string \<Rightarrow> string \<Rightarrow> int \<Rightarrow> 'c list" where
  "getRecentConsoleLogs appConsoleLogs userId serverId limit =
     map cl_content
       (js_slice
          (sort_key cl_timestamp
             (filter (\<lambda>r. cl_userId r = userId \<and> cl_serverId r = serverId) appConsoleLogs))
          (- limit))"

definition clearConsoleLogs ::
  "'c console_row list \<Rightarrow> string \<Rightarrow> string \<Rightarrow> 'c console_row list" where
  "clearConsoleLogs appConsoleLogs userId serverId =
     filter (\<lambda>r. \<not> (cl_userId r = userId \<and> cl_serverId r = serverId)) appConsoleLogs"

text \<open>
  \<^verbatim>\<open>
  const maxLogSize = 1000;
  const trimLogs = (logs) => {
      if (logs && logs.length > maxLogSize) logs.splice(0, logs.length - maxLogSize);
  };
  \<close>
\<close>

definition maxLogSize :: nat where
  "maxLogSize = 1000"

definition trimLogs :: "'a list \<Rightarrow> 'a list" where
  "trimLogs logs = (if length logs > maxLogSize then drop (length logs - maxLogSize) logs else logs)"

text \<open>
  A run of appends: each event is a clock reading, the pair and the line, handed to
  \<open>saveConsoleLog\<close> in order.
\<close>

type_synonym 'c append_event = "nat \<times> string \<times> string \<times> 'c"

definition append_all :: "'c console_row list \<Rightarrow> 'c append_event list \<Rightarrow> 'c console_row list" where
  "append_all db evs = foldl (\<lambda>d (t, u, s, c). saveConsoleLog d t u s c) db evs"

text \<open>
  For stating what is retained: the newest \<open>n\<close> elements of a list in their order, the
  row an append event writes, and the lines appended for one pair, in the order of the
  appends.
\<close>

definition newest :: "nat \<Rightarrow> 'a list \<Rightarrow> 'a list" where
  "newest n xs = drop (length xs - n) xs"

definition row_of :: "'c append_event \<Rightarrow> 'c console_row" where
  "row_of e = (case e of (t, u, s, c) \<Rightarrow>
     \<lparr>cl_userId = u, cl_serverId = s, cl_timestamp = t, cl_content = c\<rparr>)"

definition lines_of :: "string \<Rightarrow> string \<Rightarrow> 'c append_event list \<Rightarrow> 'c list" where
  "lines_of u s evs = map (\<lambda>(t, u', s', c). c) (filter (\<lambda>(t, u', s', c). u' = u \<and> s' = s) evs)"

section \<open>Lifecycle manager: data\<close>

text \<open>
  What the dashboard keeps, in the JSON database and in memory, as far as the lifecycle
  routes read or write it.
\<close>

record permissions =
  viewConsole :: bool
  viewFiles :: bool
  editFiles :: bool
  viewSettings :: bool
  editSettings :: bool
  viewUsers :: bool
  editUsers :: bool
  viewStartup :: bool
  editStartup :: bool

text \<open>A row of \<open>appUsers\<close> and a server record (\<open>JsonServerModel\<close>); display names are left out.\<close>

record app_user =
  au_userId :: string
  au_isAdmin :: bool

record server =
  sv_id :: string
  sv_ownerId :: string
  sv_isSuspended :: bool
  sv_users :: "(string \<times> permissions) list"
  sv_files :: "string files"
  sv_startupSettings :: "(string \<times> string) list"

text \<open>A row of \<open>appProcessState\<close>: \<^verbatim>\<open>{ userId, serverId, isRunning, startTime }\<close>.\<close>

record process_state_row =
  ps_userId :: string
  ps_serverId :: string
  ps_isRunning :: bool
  ps_startTime :: "nat option"

text \<open>
  The console lines. In the source they are strings: a text, mostly a fixed Arabic
  sentence with a parameter, wrapped by \<open>formatConsoleOutput\<close> into a span with the time
  and a severity icon. The model keeps which text it is and whether it was formatted;
  the time stamp and the severity are not modelled.
\<close>

datatype log_text =
    RemoveTempWarning string   \<comment> \<open>warning: cleaning the old temporary directory failed (code)\<close>
  | PreparingServer            \<comment> \<open>preparing the server, please wait\<close>
  | InstallingUserPackages "string list"  \<comment> \<open>installing the packages of the startup settings\<close>
  | ProcessOutput string       \<comment> \<open>stdout or stderr of npm or of the child, as it came\<close>
  | UserPackagesInstalled      \<comment> \<open>the packages of the startup settings were installed\<close>
  | UserPackagesFailed string  \<comment> \<open>error installing the packages of the startup settings\<close>
  | MainFileMissing string     \<comment> \<open>the main file (name) does not exist\<close>
  | InstallingPackages         \<comment> \<open>installing the required packages\<close>
  | PackagesInstalled          \<comment> \<open>packages installed, starting the server\<close>
  | PackagesFailed string      \<comment> \<open>error installing the packages\<close>
  | ServerStarted string       \<comment> \<open>the server was started on port (port)\<close>
  | ServerExited "int option"  \<comment> \<open>the server stopped (exit code)\<close>
  | SpawnFailed string         \<comment> \<open>error starting the server\<close>
  | StartFailed string         \<comment> \<open>an error occurred while starting the server\<close>
  | ServerStoppedInfo          \<comment> \<open>[info] the server was stopped\<close>

datatype console_line = Formatted log_text | Unformatted log_text | ClearConsoleSignal

definition formatConsoleOutput :: "log_text \<Rightarrow> console_line" where
  "formatConsoleOutput log = Formatted log"

text \<open>
  A connected viewer: \<open>ws.userId\<close> and \<open>ws.serverId\<close> from the URL of the connection,
  whether the socket is open, what has been sent to it, and the events the server
  listens to on it.
\<close>

record ws_client =
  ws_userId :: "string option"
  ws_serverId :: "string option"
  ws_open :: bool
  ws_received :: "console_line list"
  ws_listeners :: "string list"

type_synonym handle = nat

datatype signal = SIGTERM | SIGKILL

datatype event_kind = StartServerEvent | StopServerEvent | DeleteServerEvent

record world =
  appServers :: "server list"
  appUsers :: "app_user list"
  appConsoleLogs :: "console_line console_row list"
  appProcessState :: "process_state_row list"
  appEventLogs :: "(event_kind \<times> string \<times> string) list"
  consoleLogs :: "string \<rightharpoonup> console_line list"
  runningProcesses :: "string \<rightharpoonup> (string \<rightharpoonup> handle)"
  serverStartTime :: "string \<rightharpoonup> nat"
  clients :: "ws_client list"
  spawned :: "(handle \<times> string \<times> string) list"
  signals :: "(handle \<times> signal) list"
  stdinWrites :: "(handle \<times> string) list"

text \<open>
  \<open>appServers\<close> to \<open>appEventLogs\<close> are arrays of the JSON database; \<open>consoleLogs\<close>,
  \<open>runningProcesses\<close> and \<open>serverStartTime\<close> are the global objects of the dashboard
  process (\<open>consoleLogs\<close> and \<open>serverStartTime\<close> keyed by the string
  \<^verbatim>\<open>`${userId}-${serverId}`\<close>, \<open>runningProcesses\<close> nested by user and server);
  \<open>clients\<close> is \<open>wss.clients\<close>. The last three fields record what was done to the
  operating system: the children spawned (handle, main file, \<open>PORT\<close>), the signals sent
  by \<open>kill\<close>, and the lines written to a child's standard input.
\<close>

text \<open>
  A statement that throws ends the function at that point: the outcome keeps the message
  and the state reached. \<open>and_then\<close> is sequencing, \<open>try_catch\<close> a \<open>try\<close> block with
  its \<open>catch\<close>.
\<close>

datatype 'a outcome = Done 'a | Threw string 'a

definition and_then :: "'a outcome \<Rightarrow> ('a \<Rightarrow> 'a outcome) \<Rightarrow> 'a outcome" where
  "and_then r f = (case r of Done w \<Rightarrow> f w | Threw e w \<Rightarrow> Threw e w)"

definition try_catch :: "'a outcome \<Rightarrow> (string \<Rightarrow> 'a \<Rightarrow> 'a outcome) \<Rightarrow> 'a outcome" where
  "try_catch r h = (case r of Done w \<Rightarrow> Done w | Threw e w \<Rightarrow> h e w)"

definition state_of :: "'a outcome \<Rightarrow> 'a" where
  "state_of r = (case r of Done w \<Rightarrow> w | Threw e w \<Rightarrow> w)"

section \<open>Lifecycle manager: the helpers\<close>

text \<open>
  \<^verbatim>\<open>
  function upsert(array, predicate, newDoc) {
      const idx = array.findIndex(predicate);
      if (idx === -1) array.push(newDoc); else array[idx] = { ...array[idx], ...newDoc };
  }
  \<close>
  Every caller passes a document with all the fields of the row, so the merge is the
  new document.
\<close>

fun upsert :: "'a list \<Rightarrow> ('a \<Rightarrow> bool) \<Rightarrow> 'a \<Rightarrow> 'a list" where
  "upsert [] predicate newDoc = [newDoc]"
| "upsert (x # xs) predicate newDoc =
     (if predicate x then newDoc # xs else x # upsert xs predicate newDoc)"

definition setProcessState ::
  "process_state_row list \<Rightarrow> string \<Rightarrow> string \<Rightarrow> bool \<Rightarrow> nat option \<Rightarrow> process_state_row list" where
  "setProcessState rows userId serverId running startTime =
     upsert rows (\<lambda>r. ps_userId r = userId \<and> ps_serverId r = serverId)
       \<lparr>ps_userId = userId, ps_serverId = serverId, ps_isRunning = running, ps_startTime = startTime\<rparr>"

definition clearProcessState ::
  "process_state_row list \<Rightarrow> string \<Rightarrow> string \<Rightarrow> process_state_row list" where
  "clearProcessState rows userId serverId =
     filter (\<lambda>r. \<not> (ps_userId r = userId \<and> ps_serverId r = serverId)) rows"

text \<open>
  \<^verbatim>\<open>return row ? { isRunning: !!row.isRunning, startTime: row.startTime || null }
             : { isRunning: false, startTime: null };\<close>
\<close>

definition getProcessState ::
  "process_state_row list \<Rightarrow> string \<Rightarrow> string \<Rightarrow> bool \<times> nat option" where
  "getProcessState rows userId serverId =
     (case find (\<lambda>r. ps_userId r = userId \<and> ps_serverId r = serverId) rows of
        Some row \<Rightarrow> (ps_isRunning row, if ps_startTime row = Some 0 then None else ps_startTime row)
      | None \<Rightarrow> (False, None))"

text \<open>\<open>User.findOne({ userId })\<close> and \<open>Server.findOne({ id })\<close>: an empty key finds nothing.\<close>

definition User_findOne :: "world \<Rightarrow> string \<Rightarrow> app_user option" where
  "User_findOne w userId =
     (if userId = [] then None else find (\<lambda>u. au_userId u = userId) (appUsers w))"

definition Server_findOne :: "world \<Rightarrow> string \<Rightarrow> server option" where
  "Server_findOne w serverId =
     (if serverId = [] then None else find (\<lambda>s. sv_id s = serverId) (appServers w))"

definition Server_deleteOne :: "world \<Rightarrow> string \<Rightarrow> world" where
  "Server_deleteOne w serverId =
     (if serverId = [] then w
      else w\<lparr>appServers := filter (\<lambda>s. sv_id s \<noteq> serverId) (appServers w)\<rparr>)"

definition logServerEvent :: "world \<Rightarrow> event_kind \<Rightarrow> string \<Rightarrow> string \<Rightarrow> world" where
  "logServerEvent w event userId serverId =
     w\<lparr>appEventLogs := appEventLogs w @ [(event, userId, serverId)]\<rparr>"

definition logKey :: "string \<Rightarrow> string \<Rightarrow> string" where
  "logKey userId serverId = userId @ ''-'' @ serverId"

text \<open>\<^verbatim>\<open>runningProcesses[userId]?.[serverId]\<close>\<close>

definition getProcess :: "world \<Rightarrow> string \<Rightarrow> string \<Rightarrow> handle option" where
  "getProcess w userId serverId =
     (case runningProcesses w userId of None \<Rightarrow> None | Some procs \<Rightarrow> procs serverId)"

text \<open>
  \<^verbatim>\<open>
  const initializeServerLogs = (userId, serverId) => {
      const logKey = `${userId}-${serverId}`;
      if (!consoleLogs[logKey]) consoleLogs[logKey] = [];
      if (!runningProcesses[userId]) runningProcesses[userId] = {};
      if (!serverStartTime[logKey]) serverStartTime[logKey] = Date.now();
  };
  \<close>
\<close>

definition initializeServerLogs :: "world \<Rightarrow> nat \<Rightarrow> string \<Rightarrow> string \<Rightarrow> world" where
  "initializeServerLogs w now userId serverId =
     w\<lparr>consoleLogs :=
         (case consoleLogs w (logKey userId serverId) of
            None \<Rightarrow> (consoleLogs w)(logKey userId serverId \<mapsto> [])
          | Some logs \<Rightarrow> consoleLogs w),
       runningProcesses :=
         (case runningProcesses w userId of
            None \<Rightarrow> (runningProcesses w)(userId \<mapsto> Map.empty)
          | Some procs \<Rightarrow> runningProcesses w),
       serverStartTime :=
         (case serverStartTime w (logKey userId serverId) of
            None \<Rightarrow> (serverStartTime w)(logKey userId serverId \<mapsto> now)
          | Some t \<Rightarrow> if t = 0 then (serverStartTime w)(logKey userId serverId \<mapsto> now)
                      else serverStartTime w)\<rparr>"

text \<open>
  \<^verbatim>\<open>consoleLogs[key].push(line)\<close> throws a \<open>TypeError\<close> when the key was never
  initialised.
\<close>

definition push_console :: "world \<Rightarrow> string \<Rightarrow> console_line \<Rightarrow> world outcome" where
  "push_console w key line =
     (case consoleLogs w key of
        None \<Rightarrow> Threw ''TypeError'' w
      | Some logs \<Rightarrow> Done (w\<lparr>consoleLogs := (consoleLogs w)(key \<mapsto> logs @ [line])\<rparr>))"

text \<open>\<^verbatim>\<open>trimLogs(consoleLogs[key])\<close>; \<open>trimLogs\<close> does nothing on \<open>undefined\<close>.\<close>

definition trim_console :: "world \<Rightarrow> string \<Rightarrow> world" where
  "trim_console w key =
     (case consoleLogs w key of
        None \<Rightarrow> w
      | Some logs \<Rightarrow> w\<lparr>consoleLogs := (consoleLogs w)(key \<mapsto> trimLogs logs)\<rparr>)"

text \<open>
  The wrappers of the database helpers in the dashboard swallow every exception of the
  JSON layer; the model takes the writes to succeed.
\<close>

definition save_console :: "world \<Rightarrow> nat \<Rightarrow> string \<Rightarrow> string \<Rightarrow> console_line \<Rightarrow> world" where
  "save_console w now userId serverId line =
     w\<lparr>appConsoleLogs := saveConsoleLog (appConsoleLogs w) now userId serverId line\<rparr>"

definition clear_console :: "world \<Rightarrow> string \<Rightarrow> string \<Rightarrow> world" where
  "clear_console w userId serverId =
     w\<lparr>appConsoleLogs := clearConsoleLogs (appConsoleLogs w) userId serverId\<rparr>"

definition set_state :: "world \<Rightarrow> string \<Rightarrow> string \<Rightarrow> bool \<Rightarrow> nat option \<Rightarrow> world" where
  "set_state w userId serverId running startTime =
     w\<lparr>appProcessState := setProcessState (appProcessState w) userId serverId running startTime\<rparr>"

text \<open>
  \<^verbatim>\<open>
  wss.clients.forEach(client => {
      if (client.userId === targetUserId && client.serverId === serverId
          && client.readyState === client.OPEN) client.send(line);
  });
  \<close>
\<close>

definition broadcast :: "world \<Rightarrow> string \<Rightarrow> string \<Rightarrow> console_line \<Rightarrow> world" where
  "broadcast w targetUserId serverId line =
     w\<lparr>clients :=
         map (\<lambda>client.
                if ws_userId client = Some targetUserId \<and> ws_serverId client = Some serverId
                   \<and> ws_open client
                then client\<lparr>ws_received := ws_received client @ [line]\<rparr>
                else client)
           (clients w)\<rparr>"

text \<open>
  The three statement groups the start sequence repeats for a line: push and send; push,
  save and send; and, for the output of the child, push, trim, send and save.
\<close>

definition log_send :: "world \<Rightarrow> string \<Rightarrow> string \<Rightarrow> console_line \<Rightarrow> world outcome" where
  "log_send w targetUserId serverId line =
     and_then (push_console w (logKey targetUserId serverId) line)
       (\<lambda>w. Done (broadcast w targetUserId serverId line))"

definition log_save_send ::
  "world \<Rightarrow> nat \<Rightarrow> string \<Rightarrow> string \<Rightarrow> console_line \<Rightarrow> world outcome" where
  "log_save_send w now targetUserId serverId line =
     and_then (push_console w (logKey targetUserId serverId) line)
       (\<lambda>w. Done (broadcast (save_console w now targetUserId serverId line)
                     targetUserId serverId line))"

definition log_trim_send_save ::
  "world \<Rightarrow> nat \<Rightarrow> string \<Rightarrow> string \<Rightarrow> console_line \<Rightarrow> world outcome" where
  "log_trim_send_save w now targetUserId serverId line =
     and_then (push_console w (logKey targetUserId serverId) line)
       (\<lambda>w. Done (save_console
                     (broadcast (trim_console w (logKey targetUserId serverId))
                        targetUserId serverId line)
                     now targetUserId serverId line))"

section \<open>Lifecycle manager: the start sequence\<close>

text \<open>
  What the environment answers during one run of \<open>startServerInBackground\<close>: the
  clock, whether the working directory exists and whether removing it fails (with which
  code), whether creating it or writing the files throws, the results of the two
  \<open>npm install\<close> runs, whether the main file and \<open>package.json\<close> exist in the working
  directory when they are looked for, and the handle of the child that \<open>spawn\<close> returns.
\<close>

datatype install_result = InstallOk string string | InstallFailed string

record start_env =
  clock :: nat
  dirExists :: bool
  removeError :: "string option"
  ensureDirError :: "string option"
  writeFilesError :: "string option"
  userInstall :: install_result
  mainFileExists :: bool
  packageJsonExists :: bool
  fullInstall :: install_result
  spawnedHandle :: handle

text \<open>\<^verbatim>\<open>x || d\<close> for a string that may be missing: the empty string is falsy.\<close>

definition js_or_str :: "string option \<Rightarrow> string \<Rightarrow> string" where
  "js_or_str x d = (case x of None \<Rightarrow> d | Some s \<Rightarrow> if s = [] then d else s)"

text \<open>
  \<^verbatim>\<open>userPackages.trim().split(/\s+/).filter(pkg => pkg)\<close>: the tokens between runs of
  white space. A string of the model is the UTF-8 byte sequence of the string of the
  source, so a white-space character is one to three bytes long. The white space of
  \<open>trim\<close> and of \<open>\s\<close> is the same set: tab, line feed, vertical tab, form feed,
  carriage return, space, U+00A0, U+1680, U+2000 to U+200A, U+2028, U+2029, U+202F,
  U+205F, U+3000 and U+FEFF. \<open>white_space_length\<close> is the number of bytes of the
  white-space character at the head of a string, and 0 when there is none; the lead
  bytes of the longer characters are no continuation bytes, so a match is always at the
  start of a character.
\<close>

definition is_space :: "char \<Rightarrow> bool" where
  "is_space c = (c = CHR '' '' \<or> c = CHR 0x09 \<or> c = CHR 0x0A \<or> c = CHR 0x0B \<or> c = CHR 0x0C
                 \<or> c = CHR 0x0D)"

definition white_space_length :: "string \<Rightarrow> nat" where
  "white_space_length s =
     (case s of
        [] \<Rightarrow> 0
      | c # cs \<Rightarrow>
          if is_space c then 1
          else if prefix [CHR 0xC2, CHR 0xA0] s then 2
          else if prefix [CHR 0xE1, CHR 0x9A, CHR 0x80] s then 3
          else if prefix [CHR 0xE2, CHR 0x80] s
                  \<and> (case drop 2 s of
                        [] \<Rightarrow> False
                      | d # ds \<Rightarrow> (0x80 \<le> (of_char d :: nat) \<and> (of_char d :: nat) \<le> 0x8A)
                                  \<or> d = CHR 0xA8 \<or> d = CHR 0xA9 \<or> d = CHR 0xAF)
          then 3
          else if prefix [CHR 0xE2, CHR 0x81, CHR 0x9F] s then 3
          else if prefix [CHR 0xE3, CHR 0x80, CHR 0x80] s then 3
          else if prefix [CHR 0xEF, CHR 0xBB, CHR 0xBF] s then 3
          else 0)"

text \<open>
  The scan keeps the token read so far; white space ends it, and empty tokens are
  dropped.
\<close>

function split_ws_from :: "string \<Rightarrow> string \<Rightarrow> string list" where
  "split_ws_from token [] = (if token = [] then [] else [token])"
| "split_ws_from token (c # cs) =
     (if white_space_length (c # cs) = 0 then split_ws_from (token @ [c]) cs
      else (if token = [] then [] else [token])
           @ split_ws_from [] (drop (white_space_length (c # cs)) (c # cs)))"
  by pat_completeness auto
termination
  by (relation "measure (\<lambda>(token, s). length s)") auto

definition split_ws :: "string \<Rightarrow> string list" where
  "split_ws s = split_ws_from [] s"

text \<open>
  Step 1: remove a stale working directory; a failure is reported as a warning and the
  start goes on. Then the directory is created.
  \<^verbatim>\<open>
  if (fs.existsSync(serverDir)) {
      try { await fs.remove(serverDir); }
      catch (rmErr) {
          const removeWarnMsg = formatConsoleOutput(`... (${rmErr.code}) ...`);
          initializeServerLogs(targetUserId, serverId);
          consoleLogs[key].push(removeWarnMsg); trimLogs(consoleLogs[key]);
          wss.clients.forEach(... client.send(removeWarnMsg) ...);
      }
  }
  await fs.ensureDir(serverDir);
  \<close>
\<close>

definition start_cleanup :: "world \<Rightarrow> start_env \<Rightarrow> string \<Rightarrow> string \<Rightarrow> world outcome" where
  "start_cleanup w env serverId targetUserId =
     and_then
       (if dirExists env then
          (case removeError env of
             None \<Rightarrow> Done w
           | Some code \<Rightarrow>
               and_then
                 (push_console (initializeServerLogs w (clock env) targetUserId serverId)
                    (logKey targetUserId serverId) (formatConsoleOutput (RemoveTempWarning code)))
                 (\<lambda>w. Done (broadcast (trim_console w (logKey targetUserId serverId))
                               targetUserId serverId (formatConsoleOutput (RemoveTempWarning code)))))
        else Done w)
       (\<lambda>w. case ensureDirError env of None \<Rightarrow> Done w | Some e \<Rightarrow> Threw e w)"

text \<open>
  Steps 2 and 3: the console of the pair is emptied, in memory and in the database, the
  viewers are told to clear, and the first line of the new session is written.
\<close>

definition start_reset :: "world \<Rightarrow> start_env \<Rightarrow> string \<Rightarrow> string \<Rightarrow> world outcome" where
  "start_reset w env serverId targetUserId =
     (let w = initializeServerLogs w (clock env) targetUserId serverId;
          w = w\<lparr>consoleLogs := (consoleLogs w)(logKey targetUserId serverId \<mapsto> [])\<rparr>;
          w = clear_console w targetUserId serverId;
          w = broadcast w targetUserId serverId ClearConsoleSignal
      in log_save_send w (clock env) targetUserId serverId (formatConsoleOutput PreparingServer))"

text \<open>
  Step 4: every file of the server is written under the working directory at its decoded
  path. The content of the directory is not part of the state; a failure throws.
\<close>

definition start_materialize :: "world \<Rightarrow> start_env \<Rightarrow> world outcome" where
  "start_materialize w env =
     (case writeFilesError env of None \<Rightarrow> Done w | Some e \<Rightarrow> Threw e w)"

text \<open>\<^verbatim>\<open>if (stdout) { push; saveConsoleLog; send }\<close>, the same for \<open>stderr\<close>.\<close>

definition npm_output :: "world \<Rightarrow> nat \<Rightarrow> string \<Rightarrow> string \<Rightarrow> string \<Rightarrow> world outcome" where
  "npm_output w now targetUserId serverId out =
     (if out = [] then Done w
      else log_save_send w now targetUserId serverId (formatConsoleOutput (ProcessOutput out)))"

text \<open>
  Step 6: the extra packages of the startup settings. A failure of the installer is
  written to the console and the start goes on.
\<close>

definition start_user_packages ::
  "world \<Rightarrow> start_env \<Rightarrow> server \<Rightarrow> string \<Rightarrow> string \<Rightarrow> world outcome" where
  "start_user_packages w env server serverId targetUserId =
     (let packagesToInstall =
            (case map_of (sv_startupSettings server) ''packages'' of
               None \<Rightarrow> [] | Some userPackages \<Rightarrow> split_ws userPackages)
      in if packagesToInstall = [] then Done w
         else
           and_then
             (log_send w targetUserId serverId
                (formatConsoleOutput (InstallingUserPackages packagesToInstall)))
             (\<lambda>w. try_catch
                (case userInstall env of
                   InstallFailed message \<Rightarrow> Threw message w
                 | InstallOk stdout stderr \<Rightarrow>
                     and_then (npm_output w (clock env) targetUserId serverId stdout)
                       (\<lambda>w. and_then (npm_output w (clock env) targetUserId serverId stderr)
                          (\<lambda>w. log_save_send w (clock env) targetUserId serverId
                                 (formatConsoleOutput UserPackagesInstalled))))
                (\<lambda>message w. log_send w targetUserId serverId
                   (formatConsoleOutput (UserPackagesFailed message)))))"

text \<open>
  Step 8: with a \<open>package.json\<close> in the working directory the installer runs without
  arguments; its failure is written to the console and thrown again.
\<close>

definition start_install :: "world \<Rightarrow> start_env \<Rightarrow> string \<Rightarrow> string \<Rightarrow> world outcome" where
  "start_install w env serverId targetUserId =
     (if packageJsonExists env then
        and_then
          (log_save_send w (clock env) targetUserId serverId (formatConsoleOutput InstallingPackages))
          (\<lambda>w. try_catch
             (case fullInstall env of
                InstallFailed message \<Rightarrow> Threw message w
              | InstallOk stdout stderr \<Rightarrow>
                  and_then (npm_output w (clock env) targetUserId serverId stdout)
                    (\<lambda>w. and_then (npm_output w (clock env) targetUserId serverId stderr)
                       (\<lambda>w. log_save_send w (clock env) targetUserId serverId
                              (formatConsoleOutput PackagesInstalled))))
             (\<lambda>message w.
                and_then
                  (log_save_send w (clock env) targetUserId serverId
                     (formatConsoleOutput (PackagesFailed message)))
                  (\<lambda>w. Threw message w)))
      else Done w)"

text \<open>
  Step 9: spawn the child and register it.
  \<^verbatim>\<open>
  const serverProcess = spawn('node', [mainFilePath], { cwd, env: { ..., PORT: port }, stdio: [pipe, pipe, pipe] });
  if (!runningProcesses[targetUserId]) runningProcesses[targetUserId] = {};
  runningProcesses[targetUserId][serverId] = serverProcess;
  serverStartTime[key] = Date.now();
  setProcessState(targetUserId, serverId, true, serverStartTime[key]);
  ... push, saveConsoleLog, send the success line ...
  logServerEvent(...);
  \<close>
\<close>

definition start_spawn ::
  "world \<Rightarrow> start_env \<Rightarrow> string \<Rightarrow> string \<Rightarrow> string \<Rightarrow> string \<Rightarrow> world outcome" where
  "start_spawn w env serverId targetUserId mainFile port =
     (let w = w\<lparr>spawned := spawned w @ [(spawnedHandle env, mainFile, port)]\<rparr>;
          w = w\<lparr>runningProcesses :=
                 (case runningProcesses w targetUserId of
                    None \<Rightarrow> (runningProcesses w)(targetUserId \<mapsto> Map.empty(serverId \<mapsto> spawnedHandle env))
                  | Some procs \<Rightarrow>
                      (runningProcesses w)(targetUserId \<mapsto> procs(serverId \<mapsto> spawnedHandle env)))\<rparr>;
          w = w\<lparr>serverStartTime := (serverStartTime w)(logKey targetUserId serverId \<mapsto> clock env)\<rparr>;
          w = set_state w targetUserId serverId True (Some (clock env))
      in and_then
           (log_save_send w (clock env) targetUserId serverId (formatConsoleOutput (ServerStarted port)))
           (\<lambda>w. Done (logServerEvent w StartServerEvent targetUserId serverId)))"

text \<open>
  The whole function. Its body is one \<open>try\<close> block; step 7, the check of the main file,
  writes its line and returns. The \<open>catch\<close> writes the error to the console and the
  viewers and removes the working directory, ignoring a failure of that removal
  (\<^verbatim>\<open>await fs.remove(serverDir).catch(() => {})\<close>).
\<close>

definition startServerInBackground ::
  "world \<Rightarrow> start_env \<Rightarrow> string \<Rightarrow> string \<Rightarrow> server \<Rightarrow> world outcome" where
  "startServerInBackground w env serverId targetUserId server =
     try_catch
       (and_then (start_cleanup w env serverId targetUserId)
          (\<lambda>w. and_then (start_reset w env serverId targetUserId)
             (\<lambda>w. and_then (start_materialize w env)
                (\<lambda>w. and_then (start_user_packages w env server serverId targetUserId)
                   (\<lambda>w. let mainFile = js_or_str (map_of (sv_startupSettings server) ''mainFile'') ''index.js'';
                             port = js_or_str (map_of (sv_startupSettings server) ''port'') ''3000''
                         in if \<not> mainFileExists env
                            then log_save_send w (clock env) targetUserId serverId
                                   (formatConsoleOutput (MainFileMissing mainFile))
                            else and_then (start_install w env serverId targetUserId)
                                   (\<lambda>w. start_spawn w env serverId targetUserId mainFile port))))))
       (\<lambda>message w. log_send w targetUserId serverId (formatConsoleOutput (StartFailed message)))"

section \<open>Lifecycle manager: the events of the child\<close>

text \<open>\<^verbatim>\<open>delete runningProcesses[targetUserId][serverId]\<close>\<close>

definition delete_process :: "world \<Rightarrow> string \<Rightarrow> string \<Rightarrow> world outcome" where
  "delete_process w targetUserId serverId =
     (case runningProcesses w targetUserId of
        None \<Rightarrow> Threw ''TypeError'' w
      | Some procs \<Rightarrow>
          Done (w\<lparr>runningProcesses := (runningProcesses w)(targetUserId \<mapsto> procs(serverId := None))\<rparr>))"

definition on_data :: "world \<Rightarrow> nat \<Rightarrow> string \<Rightarrow> string \<Rightarrow> string \<Rightarrow> world outcome" where
  "on_data w now targetUserId serverId chunk =
     log_trim_send_save w now targetUserId serverId (formatConsoleOutput (ProcessOutput chunk))"

text \<open>
  \<^verbatim>\<open>
  serverProcess.on('close', async (code) => {
      push(closeMessage); trimLogs(...);
      delete runningProcesses[targetUserId][serverId];
      setProcessState(targetUserId, serverId, false, null);
      await fs.remove(serverDir).catch(() => {});
      wss.clients.forEach(... send(closeMessage) ...);
  });
  \<close>
\<close>

definition on_close :: "world \<Rightarrow> string \<Rightarrow> string \<Rightarrow> int option \<Rightarrow> world outcome" where
  "on_close w targetUserId serverId code =
     and_then (push_console w (logKey targetUserId serverId) (formatConsoleOutput (ServerExited code)))
       (\<lambda>w. and_then (delete_process (trim_console w (logKey targetUserId serverId)) targetUserId serverId)
          (\<lambda>w. Done (broadcast (set_state w targetUserId serverId False None) targetUserId serverId
                        (formatConsoleOutput (ServerExited code)))))"

text \<open>
  \<^verbatim>\<open>
  serverProcess.on('error', async (error) => {
      push(errorMsg); trimLogs(...);
      delete runningProcesses[targetUserId][serverId];
      setProcessState(targetUserId, serverId, false, null);
      fs.removeSync(serverDir);
      wss.clients.forEach(... send(errorMsg) ...);
  });
  \<close>
  \<open>removeSyncError\<close> is the error that \<open>fs.removeSync\<close> throws, if it does.
\<close>

definition on_error :: "world \<Rightarrow> string option \<Rightarrow> string \<Rightarrow> string \<Rightarrow> string \<Rightarrow> world outcome" where
  "on_error w removeSyncError targetUserId serverId message =
     and_then (push_console w (logKey targetUserId serverId) (formatConsoleOutput (SpawnFailed message)))
       (\<lambda>w. and_then (delete_process (trim_console w (logKey targetUserId serverId)) targetUserId serverId)
          (\<lambda>w. and_then
             (case removeSyncError of
                None \<Rightarrow> Done (set_state w targetUserId serverId False None)
              | Some e \<Rightarrow> Threw e (set_state w targetUserId serverId False None))
             (\<lambda>w. Done (broadcast w targetUserId serverId (formatConsoleOutput (SpawnFailed message))))))"

section \<open>Lifecycle manager: the routes\<close>

record request =
  session_userId :: "string option"
  session_impersonating :: "string option"
  body_serverId :: "string option"
  body_userId :: "string option"

datatype reject =
    NotLoggedIn | ServerIdMissing | UserNotFound | TargetUserNotFound | ServerNotFound
  | NotOwnersServer | ServerSuspended | NoServerAccess | NotPermitted | AlreadyStopped

datatype response = Rejected reject | Accepted

text \<open>
  \<^verbatim>\<open>
  if (!req.session.userId) return res.redirect('/login?...');
  req.userId = req.session.impersonating || req.session.userId;
  req.originalUserId = req.session.userId;
  \<close>
  The result is \<open>(req.userId, req.originalUserId)\<close>.
\<close>

definition ensureLoggedIn :: "request \<Rightarrow> (string \<times> string) option" where
  "ensureLoggedIn req =
     (case session_userId req of
        None \<Rightarrow> None
      | Some sessionUserId \<Rightarrow>
          if sessionUserId = [] then None
          else Some (js_or_str (session_impersonating req) sessionUserId, sessionUserId))"

record access =
  ac_server :: server
  ac_isServerOwner :: bool
  ac_isAdmin :: bool
  ac_targetUserId :: string

text \<open>
  \<open>ensureServerAccess\<close> for a POST request: the checks in the order of the source. The
  suspension check lets an administrator through.
\<close>

definition ensureServerAccess :: "world \<Rightarrow> request \<Rightarrow> string \<Rightarrow> reject + access" where
  "ensureServerAccess w req userId =
     (case body_serverId req of
        None \<Rightarrow> Inl ServerIdMissing
      | Some serverId \<Rightarrow>
          if serverId = [] then Inl ServerIdMissing
          else
            (case User_findOne w userId of
               None \<Rightarrow> Inl UserNotFound
             | Some user \<Rightarrow>
                 (case User_findOne w (js_or_str (body_userId req) userId) of
                    None \<Rightarrow> Inl TargetUserNotFound
                  | Some targetUser \<Rightarrow>
                      (case Server_findOne w serverId of
                         None \<Rightarrow> Inl ServerNotFound
                       | Some server \<Rightarrow>
                           if sv_ownerId server \<noteq> js_or_str (body_userId req) userId
                           then Inl NotOwnersServer
                           else if sv_isSuspended server \<and> \<not> au_isAdmin user
                           then Inl ServerSuspended
                           else if sv_ownerId server = userId \<or> au_isAdmin user
                                   \<or> map_of (sv_users server) userId \<noteq> None
                           then Inr \<lparr>ac_server = server,
                                     ac_isServerOwner = (sv_ownerId server = userId),
                                     ac_isAdmin = au_isAdmin user,
                                     ac_targetUserId = js_or_str (body_userId req) userId\<rparr>
                           else Inl NoServerAccess))))"

text \<open>
  \<^verbatim>\<open>
  app.post('/start-server', ensureLoggedIn, ensureServerAccess, async (req, res) => {
      const { serverId, userId } = req.body;
      const targetUserId = userId || req.userId;
      const server = await Server.findOne({ id: serverId });
      if (!server) return res.redirect(... not found ...);
      if (server.isSuspended) return res.redirect(... suspended ...);
      startServerInBackground(serverId, targetUserId, server, ...);
      res.redirect(... success ...);
  });
  \<close>
  The start runs in the background and the request is answered at once; the model gives
  the answer together with the state after the background run has ended.
\<close>

definition start_server_route :: "world \<Rightarrow> start_env \<Rightarrow> request \<Rightarrow> response \<times> world" where
  "start_server_route w env req =
     (case ensureLoggedIn req of
        None \<Rightarrow> (Rejected NotLoggedIn, w)
      | Some (userId, originalUserId) \<Rightarrow>
          (case ensureServerAccess w req userId of
             Inl r \<Rightarrow> (Rejected r, w)
           | Inr acc \<Rightarrow>
               (case Server_findOne w (js_or_str (body_serverId req) []) of
                  None \<Rightarrow> (Rejected ServerNotFound, w)
                | Some server \<Rightarrow>
                    if sv_isSuspended server then (Rejected ServerSuspended, w)
                    else (Accepted,
                          state_of (startServerInBackground w env (js_or_str (body_serverId req) [])
                                      (js_or_str (body_userId req) userId) server)))))"

text \<open>
  \<^verbatim>\<open>
  app.post('/stop-server', ensureLoggedIn, ensureServerAccess, async (req, res) => {
      ...
      if (!req.isServerOwner && !user.isAdmin && !permissions.editSettings) return res.redirect(...);
      if (!runningProcesses[targetUserId]?.[serverId]) return res.redirect(... already stopped ...);
      runningProcesses[targetUserId][serverId].kill();
      delete runningProcesses[targetUserId][serverId];
      setProcessState(targetUserId, serverId, false, null);
      const stopMsg = formatConsoleOutput('...');
      consoleLogs[key].push(stopMsg);
      saveConsoleLog(targetUserId, serverId, stopMsg);
      trimLogs(consoleLogs[key]);
      fs.removeSync(path.join(__dirname, 'temp', targetUserId, serverId));
      wss.clients.forEach(... client.send('...') ...);
      logServerEvent(...);
      res.redirect(... success ...);
  });
  \<close>
  The answer is \<open>None\<close> when the handler throws before it answers.
\<close>

definition stop_server_route ::
  "world \<Rightarrow> string option \<Rightarrow> nat \<Rightarrow> request \<Rightarrow> response option \<times> world" where
  "stop_server_route w removeSyncError now req =
     (case ensureLoggedIn req of
        None \<Rightarrow> (Some (Rejected NotLoggedIn), w)
      | Some (userId, originalUserId) \<Rightarrow>
          (case ensureServerAccess w req userId of
             Inl r \<Rightarrow> (Some (Rejected r), w)
           | Inr acc \<Rightarrow>
               if \<not> ac_isServerOwner acc \<and> \<not> ac_isAdmin acc
                  \<and> \<not> (case map_of (sv_users (ac_server acc)) userId of
                          None \<Rightarrow> False | Some p \<Rightarrow> editSettings p)
               then (Some (Rejected NotPermitted), w)
               else
                 (case getProcess w (ac_targetUserId acc) (js_or_str (body_serverId req) []) of
                    None \<Rightarrow> (Some (Rejected AlreadyStopped), w)
                  | Some h \<Rightarrow>
                      (case
                         and_then
                           (delete_process (w\<lparr>signals := signals w @ [(h, SIGTERM)]\<rparr>)
                              (ac_targetUserId acc) (js_or_str (body_serverId req) []))
                           (\<lambda>w. and_then
                              (push_console
                                 (set_state w (ac_targetUserId acc) (js_or_str (body_serverId req) [])
                                    False None)
                                 (logKey (ac_targetUserId acc) (js_or_str (body_serverId req) []))
                                 (formatConsoleOutput ServerStoppedInfo))
                              (\<lambda>w. and_then
                                 (case removeSyncError of
                                    None \<Rightarrow>
                                      Done (trim_console
                                              (save_console w now (ac_targetUserId acc)
                                                 (js_or_str (body_serverId req) [])
                                                 (formatConsoleOutput ServerStoppedInfo))
                                              (logKey (ac_targetUserId acc) (js_or_str (body_serverId req) [])))
                                  | Some e \<Rightarrow>
                                      Threw e
                                        (trim_console
                                           (save_console w now (ac_targetUserId acc)
                                              (js_or_str (body_serverId req) [])
                                              (formatConsoleOutput ServerStoppedInfo))
                                           (logKey (ac_targetUserId acc) (js_or_str (body_serverId req) []))))
                                 (\<lambda>w. Done (logServerEvent
                                               (broadcast w (ac_targetUserId acc)
                                                  (js_or_str (body_serverId req) [])
                                                  (Unformatted ServerStoppedInfo))
                                               StopServerEvent userId (js_or_str (body_serverId req) [])))))
                       of Done w' \<Rightarrow> (Some Accepted, w')
                        | Threw e w' \<Rightarrow> (None, w')))))"

text \<open>
  \<^verbatim>\<open>
  app.post('/delete-server', ensureLoggedIn, ensureServerAccess, async (req, res) => {
      ...
      if (!req.isServerOwner && !user.isAdmin) return res.redirect(...);
      if (runningProcesses[targetUserId]?.[serverId]) {
          runningProcesses[targetUserId][serverId].kill();
          delete runningProcesses[targetUserId][serverId];
      }
      await Server.deleteOne({ id: serverId });
      logServerEvent(...);
      res.redirect(... success ...);
  });
  \<close>
\<close>

definition delete_server_route :: "world \<Rightarrow> request \<Rightarrow> response \<times> world" where
  "delete_server_route w req =
     (case ensureLoggedIn req of
        None \<Rightarrow> (Rejected NotLoggedIn, w)
      | Some (userId, originalUserId) \<Rightarrow>
          (case ensureServerAccess w req userId of
             Inl r \<Rightarrow> (Rejected r, w)
           | Inr acc \<Rightarrow>
               if \<not> ac_isServerOwner acc \<and> \<not> ac_isAdmin acc then (Rejected NotPermitted, w)
               else
                 (let serverId = js_or_str (body_serverId req) [];
                      targetUserId = js_or_str (body_userId req) userId;
                      w = (case getProcess w targetUserId serverId of
                             None \<Rightarrow> w
                           | Some h \<Rightarrow>
                               state_of (delete_process (w\<lparr>signals := signals w @ [(h, SIGTERM)]\<rparr>)
                                           targetUserId serverId))
                  in (Accepted,
                      logServerEvent (Server_deleteOne w serverId) DeleteServerEvent userId serverId))))"

section \<open>Live viewer channel\<close>

text \<open>
  \<^verbatim>\<open>
  wss.on('connection', (ws, req) => {
      const userId = url.searchParams.get('userId');
      const serverId = url.searchParams.get('serverId');
      ws.userId = userId; ws.serverId = serverId;
      if (userId && serverId) {
          initializeServerLogs(userId, serverId);
          const recent = getRecentConsoleLogs(userId, serverId, 100);
          recent.forEach(log => { if (ws.readyState === ws.OPEN) ws.send(log); });
      }
      ws.on('close', () => { /* Cleanup if needed */ });
  });
  \<close>
  The handler registers one listener on the socket, for \<open>close\<close>, with an empty body.
  The two parameters may be missing from the URL; \<open>js_or_str x []\<close> is the string of
  \<open>x\<close>, empty (and so falsy) when it is missing.
\<close>

definition ws_connection :: "world \<Rightarrow> nat \<Rightarrow> string option \<Rightarrow> string option \<Rightarrow> world" where
  "ws_connection w now userId serverId =
     (if js_or_str userId [] \<noteq> [] \<and> js_or_str serverId [] \<noteq> [] then
        (let w = initializeServerLogs w now (js_or_str userId []) (js_or_str serverId [])
         in w\<lparr>clients := clients w @
                [\<lparr>ws_userId = userId, ws_serverId = serverId, ws_open = True,
                  ws_received = getRecentConsoleLogs (appConsoleLogs w) (js_or_str userId [])
                                  (js_or_str serverId []) 100,
                  ws_listeners = [''close'']\<rparr>]\<rparr>)
      else
        w\<lparr>clients := clients w @
             [\<lparr>ws_userId = userId, ws_serverId = serverId, ws_open = True, ws_received = [],
               ws_listeners = [''close'']\<rparr>]\<rparr>)"

text \<open>
  An event on the socket of viewer \<open>i\<close>: the emitter calls the listeners registered for
  the name of the event, and an event without a listener has no effect. A line of input
  from the viewer arrives as a \<open>message\<close> event.
\<close>

definition ws_on_close :: "world \<Rightarrow> world" where
  "ws_on_close w = w"

definition ws_emit :: "world \<Rightarrow> nat \<Rightarrow> string \<Rightarrow> string \<Rightarrow> world" where
  "ws_emit w i name payload =
     (if i < length (clients w) \<and> name \<in> set (ws_listeners (clients w ! i)) \<and> name = ''close''
      then ws_on_close w else w)"

section \<open>A small installation, for the concrete runs\<close>

text \<open>
  An administrator \<open>admin\<close> and a user \<open>u1\<close> who owns the server \<open>s1\<close> with default
  startup settings and one file, \<open>index.js\<close>. In \<open>demo_world\<close> nothing runs; in
  \<open>demo_running\<close> the child with handle 7 is registered for \<open>(u1, s1)\<close>, its state row
  says running and one console line is persisted.
\<close>

definition demo_server :: "bool \<Rightarrow> server" where
  "demo_server suspended =
     \<lparr>sv_id = ''s1'', sv_ownerId = ''u1'', sv_isSuspended = suspended, sv_users = [],
       sv_files = [(''index__DOT__js'', ''Y29uc29sZS5sb2coMSk='')], sv_startupSettings = []\<rparr>"

definition demo_world :: "bool \<Rightarrow> world" where
  "demo_world suspended =
     \<lparr>appServers = [demo_server suspended],
       appUsers = [\<lparr>au_userId = ''admin'', au_isAdmin = True\<rparr>,
                   \<lparr>au_userId = ''u1'', au_isAdmin = False\<rparr>],
       appConsoleLogs = [], appProcessState = [], appEventLogs = [],
       consoleLogs = Map.empty, runningProcesses = Map.empty, serverStartTime = Map.empty,
       clients = [], spawned = [], signals = [], stdinWrites = []\<rparr>"

definition demo_running :: world where
  "demo_running =
     (demo_world False)
       \<lparr>appConsoleLogs :=
          [\<lparr>cl_userId = ''u1'', cl_serverId = ''s1'', cl_timestamp = 5,
            cl_content = Formatted (ServerStarted ''3000'')\<rparr>],
        appProcessState :=
          [\<lparr>ps_userId = ''u1'', ps_serverId = ''s1'', ps_isRunning = True, ps_startTime = Some 5\<rparr>],
        consoleLogs := [''u1-s1'' \<mapsto> [Formatted (ServerStarted ''3000'')]],
        runningProcesses := [''u1'' \<mapsto> [''s1'' \<mapsto> 7]],
        serverStartTime := [''u1-s1'' \<mapsto> 5],
        spawned := [(7, ''index.js'', ''3000'')]\<rparr>"

definition demo_env :: "bool \<Rightarrow> start_env" where
  "demo_env mainFilePresent =
     \<lparr>clock = 10, dirExists = False, removeError = None, ensureDirError = None,
       writeFilesError = None, userInstall = InstallOk [] [], mainFileExists = mainFilePresent,
       packageJsonExists = False, fullInstall = InstallOk [] [], spawnedHandle = 8\<rparr>"

definition demo_request :: "string \<Rightarrow> request" where
  "demo_request actor =
     \<lparr>session_userId = Some actor, session_impersonating = None,
       body_serverId = Some ''s1'', body_userId = Some ''u1''\<rparr>"

section \<open>Notions for stating what a start produces\<close>

text \<open>
  The lines saying that the main file is missing, and how many of them a list holds; the
  viewers attached to a pair, and the delivery of lines to them; the persisted lines of
  a pair. A step is quiet when it leaves the children, the signals, the registry and the
  process state as they are and sends the viewers of the pair only lines of other
  kinds; the logs of a pair are clean when neither the in-memory console nor the
  persisted lines hold a line saying that the main file is missing.
\<close>

fun is_entry_missing :: "console_line \<Rightarrow> bool" where
  "is_entry_missing (Formatted (MainFileMissing f)) = True"
| "is_entry_missing l = False"

definition missing_count :: "console_line list \<Rightarrow> nat" where
  "missing_count ls = length (filter is_entry_missing ls)"

definition attached :: "string \<Rightarrow> string \<Rightarrow> ws_client \<Rightarrow> bool" where
  "attached u s c = (ws_userId c = Some u \<and> ws_serverId c = Some s \<and> ws_open c)"

definition deliver :: "string \<Rightarrow> string \<Rightarrow> console_line list \<Rightarrow> ws_client \<Rightarrow> ws_client" where
  "deliver u s sent c = (if attached u s c then c\<lparr>ws_received := ws_received c @ sent\<rparr> else c)"

definition pair_lines :: "string \<Rightarrow> string \<Rightarrow> world \<Rightarrow> console_line list" where
  "pair_lines u s w =
     map cl_content (filter (\<lambda>r. cl_userId r = u \<and> cl_serverId r = s) (appConsoleLogs w))"

definition quiet_step :: "string \<Rightarrow> string \<Rightarrow> world \<Rightarrow> world \<Rightarrow> bool" where
  "quiet_step u s w w' =
     (spawned w' = spawned w \<and> signals w' = signals w \<and> stdinWrites w' = stdinWrites w
      \<and> appProcessState w' = appProcessState w
      \<and> (\<forall>a b. getProcess w' a b = getProcess w a b)
      \<and> (\<exists>sent. missing_count sent = 0 \<and> clients w' = map (deliver u s sent) (clients w)))"

definition logs_clean :: "string \<Rightarrow> string \<Rightarrow> world \<Rightarrow> bool" where
  "logs_clean u s w =
     ((\<exists>ls. consoleLogs w (logKey u s) = Some ls \<and> missing_count ls = 0)
      \<and> missing_count (pair_lines u s w) = 0)"

definition ok_since :: "string \<Rightarrow> string \<Rightarrow> world \<Rightarrow> world \<Rightarrow> bool" where
  "ok_since u s w0 w = (quiet_step u s w0 w \<and> logs_clean u s w)"

section \<open>Properties of the path-key codec\<close>

subsection \<open>Equations of the decoder\<close>

lemma decode_Nil: "decodeFilePathKey [] = []"
  by (simp add: decodeFilePathKey.simps)

lemma decode_token:
  "decodeFilePathKey (CHR ''_'' # CHR ''_'' # CHR ''D'' # CHR ''O'' # CHR ''T'' # CHR ''_'' # CHR ''_'' # s)
     = CHR ''.'' # decodeFilePathKey s"
  by (subst decodeFilePathKey.simps) simp

lemma decode_other:
  assumes "\<not> prefix ''__DOT__'' (c # cs)"
  shows "decodeFilePathKey (c # cs) = c # decodeFilePathKey cs"
  by (subst decodeFilePathKey.simps) (simp only: assms if_False list.case)

lemma str_includes_ConsD:
  "\<not> str_includes (c # cs) t \<Longrightarrow> \<not> prefix t (c # cs) \<and> \<not> str_includes cs t"
  by simp

text \<open>
  A token can start in the encoded string at a position that does not hold an escaped
  dot only if the path itself has \<open>__DOT__\<close>, \<open>__DOT.\<close> or \<open>__DOT_.\<close> there.
\<close>

lemma spurious_token:
  assumes "c \<noteq> CHR ''.''"
    and "prefix ''__DOT__'' (encodeFilePathKey (c # cs))"
  shows "prefix ''__DOT__'' (c # cs) \<or> prefix ''__DOT.'' (c # cs) \<or> prefix ''__DOT_.'' (c # cs)"
proof -
  from assms have c: "c = CHR ''_''" and p1: "prefix ''_DOT__'' (encodeFilePathKey cs)"
    by auto
  from p1 obtain c1 r1 where cs: "cs = c1 # r1" by (cases cs) auto
  from p1 cs have c1: "c1 = CHR ''_''" and p2: "prefix ''DOT__'' (encodeFilePathKey r1)"
    by (auto split: if_splits)
  from p2 obtain c2 r2 where r1: "r1 = c2 # r2" by (cases r1) auto
  from p2 r1 have c2: "c2 = CHR ''D''" and p3: "prefix ''OT__'' (encodeFilePathKey r2)"
    by (auto split: if_splits)
  from p3 obtain c3 r3 where r2: "r2 = c3 # r3" by (cases r2) auto
  from p3 r2 have c3: "c3 = CHR ''O''" and p4: "prefix ''T__'' (encodeFilePathKey r3)"
    by (auto split: if_splits)
  from p4 obtain c4 r4 where r3: "r3 = c4 # r4" by (cases r3) auto
  from p4 r3 have c4: "c4 = CHR ''T''" and p5: "prefix ''__'' (encodeFilePathKey r4)"
    by (auto split: if_splits)
  from p5 obtain c5 r5 where r4: "r4 = c5 # r5" by (cases r4) auto
  show ?thesis
  proof (cases "c5 = CHR ''.''")
    case True
    with c cs c1 r1 c2 r2 c3 r3 c4 r4 show ?thesis by simp
  next
    case False
    with p5 r4 have c5: "c5 = CHR ''_''" and p6: "prefix ''_'' (encodeFilePathKey r5)"
      by auto
    from p6 obtain c6 r6 where r5: "r5 = c6 # r6" by (cases r5) auto
    from p6 r5 have "c6 = CHR ''.'' \<or> c6 = CHR ''_''"
      by (auto split: if_splits)
    with c cs c1 r1 c2 r2 c3 r3 c4 r4 c5 r5 show ?thesis by auto
  qed
qed

lemma decode_encode_id:
  "\<not> str_includes p ''__DOT__'' \<Longrightarrow> \<not> str_includes p ''__DOT.'' \<Longrightarrow> \<not> str_includes p ''__DOT_.''
   \<Longrightarrow> decodeFilePathKey (encodeFilePathKey p) = p"
proof (induction p)
  case Nil
  show ?case by (simp add: decode_Nil)
next
  case (Cons c cs)
  from Cons.prems have tl: "\<not> str_includes cs ''__DOT__''" "\<not> str_includes cs ''__DOT.''"
    "\<not> str_includes cs ''__DOT_.''"
    and hd: "\<not> prefix ''__DOT__'' (c # cs)" "\<not> prefix ''__DOT.'' (c # cs)"
    "\<not> prefix ''__DOT_.'' (c # cs)"
    using str_includes_ConsD by blast+
  from tl have IH: "decodeFilePathKey (encodeFilePathKey cs) = cs"
    by (rule Cons.IH)
  show ?case
  proof (cases "c = CHR ''.''")
    case True
    then have "encodeFilePathKey (c # cs) = ''__DOT__'' @ encodeFilePathKey cs" by simp
    then show ?thesis using IH True by (simp add: decode_token)
  next
    case False
    with hd spurious_token [of c cs]
    have "\<not> prefix ''__DOT__'' (encodeFilePathKey (c # cs))" by blast
    with False have "\<not> prefix ''__DOT__'' (c # encodeFilePathKey cs)" by simp
    then have "decodeFilePathKey (c # encodeFilePathKey cs) = c # decodeFilePathKey (encodeFilePathKey cs)"
      by (rule decode_other)
    with False IH show ?thesis by simp
  qed
qed

text \<open>The decoder never leaves a token in its output.\<close>

lemma prefix_decodeD:
  "prefix u (decodeFilePathKey x) \<Longrightarrow> CHR ''.'' \<notin> set u \<Longrightarrow> prefix u x"
proof (induction u arbitrary: x)
  case Nil
  show ?case by simp
next
  case (Cons a u)
  show ?case
  proof (cases "prefix ''__DOT__'' x")
    case True
    then obtain r where "x = ''__DOT__'' @ r" by (auto simp: prefix_def)
    with Cons.prems show ?thesis by (simp add: decode_token)
  next
    case False
    show ?thesis
    proof (cases x)
      case Nil
      with Cons.prems show ?thesis by (simp add: decode_Nil)
    next
      case (Cons c cs)
      with False have "decodeFilePathKey x = c # decodeFilePathKey cs"
        by (simp add: decode_other)
      with Cons.prems Cons.IH [of cs] Cons show ?thesis by simp
    qed
  qed
qed

lemma decode_no_token: "\<not> str_includes (decodeFilePathKey x) ''__DOT__''"
proof (induction x rule: decodeFilePathKey.induct)
  case (1 s)
  show ?case
  proof (cases "prefix ''__DOT__'' s")
    case True
    then obtain r where s: "s = ''__DOT__'' @ r" by (auto simp: prefix_def)
    then have "drop 7 s = r" by simp
    with "1.IH"(1) [OF True] s show ?thesis by (simp add: decode_token)
  next
    case False
    show ?thesis
    proof (cases s)
      case Nil
      then show ?thesis by (simp add: decode_Nil)
    next
      case (Cons c cs)
      with False have eq: "decodeFilePathKey s = c # decodeFilePathKey cs"
        by (simp add: decode_other)
      have "\<not> prefix ''__DOT__'' (decodeFilePathKey s)"
      proof
        assume "prefix ''__DOT__'' (decodeFilePathKey s)"
        then have "prefix ''__DOT__'' s" by (rule prefix_decodeD) simp
        with False show False by simp
      qed
      with eq "1.IH"(2) [OF False Cons] show ?thesis by simp
    qed
  qed
qed

subsection \<open>Round trip\<close>

text \<open>
  Claim C9, as the code has it. For every path \<open>p\<close> that contains none of \<open>__DOT__\<close>,
  \<open>__DOT.\<close> and \<open>__DOT_.\<close>, decoding the encoded key gives the path back:
  \<open>decode (encode p) = p\<close>. The codec does not normalise: the result is the normalised
  path exactly when \<open>p\<close> has no backslash left to turn into a slash, and in every case
  normalising the decoded key gives the normalised path.
\<close>

theorem path_codec_round_trip:
  assumes "\<not> str_includes p ''__DOT__''"
    and "\<not> str_includes p ''__DOT.''"
    and "\<not> str_includes p ''__DOT_.''"
  shows "decodeFilePathKey (encodeFilePathKey p) = p
       \<and> normalizeSlashes (decodeFilePathKey (encodeFilePathKey p)) = normalizeSlashes p
       \<and> (CHR 0x5C \<notin> set p \<longrightarrow> decodeFilePathKey (encodeFilePathKey p) = normalizeSlashes p)"
proof -
  have rt: "decodeFilePathKey (encodeFilePathKey p) = p"
    using assms by (rule decode_encode_id)
  have "CHR 0x5C \<notin> set p \<Longrightarrow> normalizeSlashes p = p"
    unfolding normalizeSlashes_def by (induction p) auto
  with rt show ?thesis by simp
qed

theorem path_codec_round_trip_witness:
  "\<not> str_includes ''src/app.config.js'' ''__DOT__''
   \<and> \<not> str_includes ''src/app.config.js'' ''__DOT.''
   \<and> \<not> str_includes ''src/app.config.js'' ''__DOT_.''
   \<and> encodeFilePathKey ''src/app.config.js'' = ''src/app__DOT__config__DOT__js''
   \<and> decodeFilePathKey (encodeFilePathKey ''src/app.config.js'') = ''src/app.config.js''
   \<and> decodeFilePathKey (encodeFilePathKey ''src/app.config.js'') = normalizeSlashes ''src/app.config.js''"
proof -
  have h1: "\<not> str_includes ''src/app.config.js'' ''__DOT__''" by simp
  have h2: "\<not> str_includes ''src/app.config.js'' ''__DOT.''" by simp
  have h3: "\<not> str_includes ''src/app.config.js'' ''__DOT_.''" by simp
  have h4: "CHR 0x5C \<notin> set ''src/app.config.js''" by simp
  have e: "encodeFilePathKey ''src/app.config.js'' = ''src/app__DOT__config__DOT__js''" by simp
  from path_codec_round_trip [OF h1 h2 h3] h4 h1 h2 h3 e show ?thesis by blast
qed

text \<open>
  The claim as the specification words it asks only that the path be free of the escape
  token. The path \<open>__DOT.\<close> is, and its key \<open>__DOT__DOT__\<close> decodes to \<open>.DOT__\<close>: the
  scan finds a token that starts in the literal text and ends in the escaped dot.
\<close>

theorem path_codec_round_trip_counterexample:
  "\<not> str_includes ''__DOT.'' ''__DOT__''
   \<and> CHR 0x5C \<notin> set ''__DOT.''
   \<and> normalizeSlashes ''__DOT.'' = ''__DOT.''
   \<and> encodeFilePathKey ''__DOT.'' = ''__DOT__DOT__''
   \<and> decodeFilePathKey (encodeFilePathKey ''__DOT.'') = ''.DOT__''
   \<and> decodeFilePathKey (encodeFilePathKey ''__DOT.'') \<noteq> normalizeSlashes ''__DOT.''"
  by (simp add: normalizeSlashes_def decode_token decode_other decode_Nil)

subsection \<open>Aliasing of keys\<close>

text \<open>
  Claim C10. The encoding is not injective: the distinct paths \<open>a.b\<close> and \<open>a__DOT__b\<close>
  have the same key, so a file stored under the second overwrites the file stored under
  the first; and for every path that contains the escape token, decoding its key gives a
  different path.
\<close>

theorem encode_not_injective:
  "''a.b'' \<noteq> ''a__DOT__b''
   \<and> encodeFilePathKey ''a.b'' = encodeFilePathKey ''a__DOT__b''
   \<and> files_get (files_set (files_set files (encodeFilePathKey ''a.b'') v1)
                   (encodeFilePathKey ''a__DOT__b'') v2) (encodeFilePathKey ''a.b'') = Some v2
   \<and> (\<forall>p. str_includes p ''__DOT__'' \<longrightarrow> decodeFilePathKey (encodeFilePathKey p) \<noteq> p)"
proof -
  have "\<And>p. str_includes p ''__DOT__'' \<Longrightarrow> decodeFilePathKey (encodeFilePathKey p) \<noteq> p"
  proof
    fix p
    assume inc: "str_includes p ''__DOT__''"
      and eq: "decodeFilePathKey (encodeFilePathKey p) = p"
    have "\<not> str_includes (decodeFilePathKey (encodeFilePathKey p)) ''__DOT__''"
      by (rule decode_no_token)
    with eq inc show False by simp
  qed
  then show ?thesis
    by (simp add: files_get_def files_set_def update_conv')
qed

theorem encode_not_injective_witness:
  "str_includes ''a__DOT__b'' ''__DOT__''
   \<and> decodeFilePathKey (encodeFilePathKey ''a__DOT__b'') \<noteq> ''a__DOT__b''
   \<and> files_get (files_set (files_set [] (encodeFilePathKey ''a.b'') ''first'')
                   (encodeFilePathKey ''a__DOT__b'') ''second'') (encodeFilePathKey ''a.b'')
       = Some ''second''"
proof -
  have h: "str_includes ''a__DOT__b'' ''__DOT__''" by simp
  from encode_not_injective [of "[]" "''first''" "''second''"] h show ?thesis by blast
qed

section \<open>Properties of the rename route\<close>

lemma move_key_map:
  "map_of (move_key m a b) x =
     (if x = a then None else if x = b \<and> map_of m a \<noteq> None then map_of m a else map_of m x)"
  by (auto simp: move_key_def files_get_def files_set_def files_delete_def update_conv' delete_conv'
      split: option.splits)

lemma fold_move_untouched:
  "x \<notin> set ks \<Longrightarrow> x \<notin> f ` set ks \<Longrightarrow>
   map_of (fold (\<lambda>k m. move_key m k (f k)) ks m) x = map_of m x"
  by (induction ks arbitrary: m) (auto simp: move_key_map)

lemma fold_move_gone:
  "k \<in> set ks \<Longrightarrow> \<forall>k'\<in>set ks. f k' \<notin> set ks \<Longrightarrow>
   map_of (fold (\<lambda>k m. move_key m k (f k)) ks m) k = None"
proof (induction ks arbitrary: m)
  case Nil
  then show ?case by simp
next
  case (Cons a ks)
  show ?case
  proof (cases "k \<in> set ks")
    case True
    with Cons.prems Cons.IH [of "move_key m a (f a)"] show ?thesis by auto
  next
    case False
    with Cons.prems have ka: "k = a" by simp
    from Cons.prems have "k \<notin> f ` set ks" by auto
    with False have "map_of (fold (\<lambda>k m. move_key m k (f k)) ks (move_key m a (f a))) k
        = map_of (move_key m a (f a)) k"
      by (rule fold_move_untouched)
    with ka show ?thesis by (simp add: move_key_map)
  qed
qed

lemma fold_move_moved:
  "distinct ks \<Longrightarrow> inj_on f (set ks) \<Longrightarrow> \<forall>k'\<in>set ks. f k' \<notin> set ks \<Longrightarrow>
   k \<in> set ks \<Longrightarrow> map_of m k = Some v \<Longrightarrow>
   map_of (fold (\<lambda>k m. move_key m k (f k)) ks m) (f k) = Some v"
proof (induction ks arbitrary: m)
  case Nil
  then show ?case by simp
next
  case (Cons a ks)
  show ?case
  proof (cases "k = a")
    case True
    from Cons.prems True have "f a \<notin> set ks" "f a \<notin> f ` set ks" "f a \<noteq> a"
      by (auto simp: inj_on_def)
    then have "map_of (fold (\<lambda>k m. move_key m k (f k)) ks (move_key m a (f a))) (f a)
        = map_of (move_key m a (f a)) (f a)"
      by (intro fold_move_untouched)
    with True Cons.prems \<open>f a \<noteq> a\<close> show ?thesis by (simp add: move_key_map)
  next
    case False
    with Cons.prems have k: "k \<in> set ks" by simp
    from Cons.prems have "k \<noteq> f a" by auto
    with False Cons.prems have "map_of (move_key m a (f a)) k = Some v"
      by (simp add: move_key_map)
    with Cons.prems k Cons.IH [of "move_key m a (f a)"] show ?thesis by auto
  qed
qed

lemma rename_file_reject:
  "files_has files (encodeFilePathKey Q)
      \<or> (\<exists>k\<in>set (files_keys files). startsWith k (encodeFilePathKey Q @ ''/''))
   \<Longrightarrow> fst (rename_file files P Q) \<noteq> None \<and> snd (rename_file files P Q) = files"
  by (auto simp: rename_file_def Let_def list_ex_iff)

lemma rename_file_single:
  assumes "\<not> files_has files (encodeFilePathKey Q)"
    and "\<not> (\<exists>k\<in>set (files_keys files). startsWith k (encodeFilePathKey Q @ ''/''))"
    and "files_has files (encodeFilePathKey P)"
  shows "rename_file files P Q = (None, move_key files (encodeFilePathKey P) (encodeFilePathKey Q))"
  using assms by (auto simp: rename_file_def Let_def list_ex_iff)

lemma rename_file_dir:
  assumes "\<not> files_has files (encodeFilePathKey Q)"
    and "\<not> (\<exists>k\<in>set (files_keys files). startsWith k (encodeFilePathKey Q @ ''/''))"
    and "\<not> files_has files (encodeFilePathKey P)"
    and "\<exists>k\<in>set (files_keys files). startsWith k (encodeFilePathKey P @ ''/'')"
  shows "rename_file files P Q = (None,
      fold (\<lambda>k m. move_key m k ((encodeFilePathKey Q @ ''/'') @ drop (length (encodeFilePathKey P @ ''/'')) k))
        (filter (\<lambda>fp. startsWith fp (encodeFilePathKey P @ ''/'')) (files_keys files)) files)"
  using assms by (auto simp: rename_file_def Let_def list_ex_iff)

lemma dir_rename_props:
  fixes files :: "'v files" and oP nP :: string
  assumes dist: "distinct (files_keys files)"
    and nocol: "\<not> (\<exists>k\<in>set (files_keys files). prefix nP k)"
  defines "ks \<equiv> filter (\<lambda>fp. prefix oP fp) (files_keys files)"
  defines "f \<equiv> \<lambda>k. nP @ drop (length oP) k"
  defines "files' \<equiv> fold (\<lambda>k m. move_key m k (f k)) ks files"
  shows "map_of files (oP @ rest) = Some v \<Longrightarrow> map_of files' (nP @ rest) = Some v"
    and "\<not> prefix oP nP \<Longrightarrow> prefix oP k \<Longrightarrow> map_of files' k = None"
    and "\<not> prefix oP k \<Longrightarrow> \<not> prefix nP k \<Longrightarrow> map_of files' k = map_of files k"
proof -
  have dks: "distinct ks"
    using dist by (simp add: ks_def)
  have setks: "set ks = {k \<in> set (files_keys files). prefix oP k}"
    by (auto simp: ks_def)
  have inj: "inj_on f (set ks)"
  proof (rule inj_onI)
    fix a b assume "a \<in> set ks" "b \<in> set ks" "f a = f b"
    then obtain ra rb where "a = oP @ ra" "b = oP @ rb" "f a = f b"
      by (auto simp: setks prefix_def)
    then show "a = b" by (simp add: f_def)
  qed
  have fpre: "\<And>k. prefix nP (f k)"
    by (simp add: f_def)
  have notin: "\<forall>k'\<in>set ks. f k' \<notin> set ks"
    using nocol fpre by (auto simp: setks)
  {
    assume g: "map_of files (oP @ rest) = Some v"
    then have "oP @ rest \<in> set (files_keys files)"
      by (auto simp: files_keys_def dest: map_of_SomeD intro: rev_image_eqI)
    then have "oP @ rest \<in> set ks" by (simp add: setks)
    with dks inj notin g
    have "map_of files' (f (oP @ rest)) = Some v"
      unfolding files'_def by (intro fold_move_moved)
    then show "map_of files' (nP @ rest) = Some v" by (simp add: f_def)
  }
  {
    assume np: "\<not> prefix oP nP" and pk: "prefix oP k"
    show "map_of files' k = None"
    proof (cases "k \<in> set ks")
      case True
      with notin show ?thesis unfolding files'_def by (intro fold_move_gone)
    next
      case False
      with pk have nk: "k \<notin> set (files_keys files)" by (simp add: setks)
      have "k \<notin> f ` set ks"
      proof
        assume "k \<in> f ` set ks"
        then obtain k' where k': "k' \<in> set ks" "k = f k'" by auto
        then have "prefix nP k" using fpre by simp
        with pk have "prefix nP oP \<or> prefix oP nP"
          by (metis prefix_same_cases)
        with np have "prefix nP oP" by simp
        moreover from k' have "prefix oP k'" "k' \<in> set (files_keys files)" by (auto simp: setks)
        ultimately have "prefix nP k'" by (metis prefix_order.trans)
        with nocol \<open>k' \<in> set (files_keys files)\<close> show False by blast
      qed
      with False have "map_of files' k = map_of files k"
        unfolding files'_def by (intro fold_move_untouched)
      moreover from nk have "map_of files k = None"
        by (simp add: files_keys_def map_of_eq_None_iff)
      ultimately show ?thesis by simp
    qed
  }
  {
    assume "\<not> prefix oP k" "\<not> prefix nP k"
    then have "k \<notin> set ks" "k \<notin> f ` set ks"
      using fpre by (auto simp: setks)
    then show "map_of files' k = map_of files k"
      unfolding files'_def by (intro fold_move_untouched)
  }
qed

text \<open>
  Claim C8, as the code has it. A rename from \<open>P\<close> to \<open>Q\<close> (the route's \<open>filePath\<close> and
  \<open>newFullFilePath\<close>) on a map with unique keys:
  \<^item> if the key of \<open>Q\<close> exists, or any key under \<open>Q\<close> plus separator, the rename is
    rejected and the map is unchanged, whether \<open>P\<close> is a file or a directory;
  \<^item> otherwise, if \<open>P\<close> is not a key itself and there are keys under \<open>P\<close> plus
    separator (the route then renames a directory), every such key is moved to the
    corresponding key under \<open>Q\<close> and every other key keeps its content; and no key
    remains under \<open>P\<close> when the prefix of \<open>Q\<close> does not lie under the prefix of \<open>P\<close>,
    as it does not for a \<open>Q\<close> built from the directory of \<open>P\<close> and a name without
    separator;
  \<^item> otherwise, if \<open>P\<close> is a key itself, the route renames a single file: the content
    moves to the key of \<open>Q\<close> and every other key keeps its content, the keys under \<open>P\<close>
    plus separator included.
\<close>

theorem rename_file_atomic:
  fixes files :: "'v files"
  assumes dist: "distinct (files_keys files)"
  shows "(files_has files (encodeFilePathKey Q)
            \<or> (\<exists>k\<in>set (files_keys files). startsWith k (encodeFilePathKey Q @ ''/''))
          \<longrightarrow> fst (rename_file files P Q) \<noteq> None \<and> snd (rename_file files P Q) = files)
       \<and> (\<not> files_has files (encodeFilePathKey Q)
            \<and> \<not> (\<exists>k\<in>set (files_keys files). startsWith k (encodeFilePathKey Q @ ''/''))
            \<and> \<not> files_has files (encodeFilePathKey P)
            \<and> (\<exists>k\<in>set (files_keys files). startsWith k (encodeFilePathKey P @ ''/''))
          \<longrightarrow> fst (rename_file files P Q) = None
            \<and> (\<forall>rest v. files_get files (encodeFilePathKey P @ ''/'' @ rest) = Some v
                  \<longrightarrow> files_get (snd (rename_file files P Q)) (encodeFilePathKey Q @ ''/'' @ rest) = Some v)
            \<and> (\<not> startsWith (encodeFilePathKey Q @ ''/'') (encodeFilePathKey P @ ''/'')
                  \<longrightarrow> (\<forall>k. startsWith k (encodeFilePathKey P @ ''/'')
                        \<longrightarrow> \<not> files_has (snd (rename_file files P Q)) k))
            \<and> (\<forall>k. \<not> startsWith k (encodeFilePathKey P @ ''/'')
                    \<and> \<not> startsWith k (encodeFilePathKey Q @ ''/'')
                  \<longrightarrow> files_get (snd (rename_file files P Q)) k = files_get files k))
       \<and> (\<not> files_has files (encodeFilePathKey Q)
            \<and> \<not> (\<exists>k\<in>set (files_keys files). startsWith k (encodeFilePathKey Q @ ''/''))
            \<and> files_has files (encodeFilePathKey P)
          \<longrightarrow> fst (rename_file files P Q) = None
            \<and> files_get (snd (rename_file files P Q)) (encodeFilePathKey Q)
                = files_get files (encodeFilePathKey P)
            \<and> \<not> files_has (snd (rename_file files P Q)) (encodeFilePathKey P)
            \<and> (\<forall>k. k \<noteq> encodeFilePathKey P \<and> k \<noteq> encodeFilePathKey Q
                  \<longrightarrow> files_get (snd (rename_file files P Q)) k = files_get files k))"
proof (intro conjI impI)
  assume "files_has files (encodeFilePathKey Q)
            \<or> (\<exists>k\<in>set (files_keys files). startsWith k (encodeFilePathKey Q @ ''/''))"
  then have "fst (rename_file files P Q) \<noteq> None \<and> snd (rename_file files P Q) = files"
    by (rule rename_file_reject)
  then show "fst (rename_file files P Q) \<noteq> None" "snd (rename_file files P Q) = files"
    by simp_all
next
  assume a: "\<not> files_has files (encodeFilePathKey Q)
            \<and> \<not> (\<exists>k\<in>set (files_keys files). startsWith k (encodeFilePathKey Q @ ''/''))
            \<and> \<not> files_has files (encodeFilePathKey P)
            \<and> (\<exists>k\<in>set (files_keys files). startsWith k (encodeFilePathKey P @ ''/''))"
  then have eq: "rename_file files P Q = (None,
      fold (\<lambda>k m. move_key m k ((encodeFilePathKey Q @ ''/'') @ drop (length (encodeFilePathKey P @ ''/'')) k))
        (filter (\<lambda>fp. prefix (encodeFilePathKey P @ ''/'') fp) (files_keys files)) files)"
    using rename_file_dir [of files Q P] by (simp add: startsWith_def)
  from a have nocol: "\<not> (\<exists>k\<in>set (files_keys files). prefix (encodeFilePathKey Q @ ''/'') k)"
    by (simp add: startsWith_def)
  note props = dir_rename_props [OF dist nocol, where oP = "encodeFilePathKey P @ ''/''"]
  show "fst (rename_file files P Q) = None" by (simp add: eq)
  show "\<forall>rest v. files_get files (encodeFilePathKey P @ ''/'' @ rest) = Some v
          \<longrightarrow> files_get (snd (rename_file files P Q)) (encodeFilePathKey Q @ ''/'' @ rest) = Some v"
    using props(1) by (simp add: eq files_get_def)
  show "\<forall>k. \<not> startsWith k (encodeFilePathKey P @ ''/'')
            \<and> \<not> startsWith k (encodeFilePathKey Q @ ''/'')
          \<longrightarrow> files_get (snd (rename_file files P Q)) k = files_get files k"
    using props(3) by (simp add: eq files_get_def startsWith_def)
  assume "\<not> startsWith (encodeFilePathKey Q @ ''/'') (encodeFilePathKey P @ ''/'')"
  then show "\<forall>k. startsWith k (encodeFilePathKey P @ ''/'')
                        \<longrightarrow> \<not> files_has (snd (rename_file files P Q)) k"
    using props(2) by (simp add: eq files_has_def startsWith_def)
next
  assume a: "\<not> files_has files (encodeFilePathKey Q)
            \<and> \<not> (\<exists>k\<in>set (files_keys files). startsWith k (encodeFilePathKey Q @ ''/''))
            \<and> files_has files (encodeFilePathKey P)"
  then have eq: "rename_file files P Q = (None, move_key files (encodeFilePathKey P) (encodeFilePathKey Q))"
    using rename_file_single [of files Q P] by simp
  from a have ne: "encodeFilePathKey P \<noteq> encodeFilePathKey Q" by auto
  show "fst (rename_file files P Q) = None" by (simp add: eq)
  show "files_get (snd (rename_file files P Q)) (encodeFilePathKey Q)
                = files_get files (encodeFilePathKey P)"
    using a ne by (auto simp: eq files_get_def files_has_def move_key_map)
  show "\<not> files_has (snd (rename_file files P Q)) (encodeFilePathKey P)"
    by (simp add: eq files_has_def move_key_map)
  show "\<forall>k. k \<noteq> encodeFilePathKey P \<and> k \<noteq> encodeFilePathKey Q
                  \<longrightarrow> files_get (snd (rename_file files P Q)) k = files_get files k"
    by (simp add: eq files_get_def move_key_map)
qed

theorem rename_file_atomic_witness:
  "fst (rename_file [(''src/a__DOT__js'', ''A''), (''src/b__DOT__js'', ''B''), (''lib/c__DOT__js'', ''C''),
          (''README'', ''R'')] ''src'' ''lib'') \<noteq> None
   \<and> snd (rename_file [(''src/a__DOT__js'', ''A''), (''src/b__DOT__js'', ''B''), (''lib/c__DOT__js'', ''C''),
          (''README'', ''R'')] ''src'' ''lib'')
       = [(''src/a__DOT__js'', ''A''), (''src/b__DOT__js'', ''B''), (''lib/c__DOT__js'', ''C''),
          (''README'', ''R'')]
   \<and> fst (rename_file [(''src/a__DOT__js'', ''A''), (''src/b__DOT__js'', ''B''), (''lib/c__DOT__js'', ''C''),
          (''README'', ''R'')] ''src'' ''app'') = None
   \<and> files_get (snd (rename_file [(''src/a__DOT__js'', ''A''), (''src/b__DOT__js'', ''B''),
          (''lib/c__DOT__js'', ''C''), (''README'', ''R'')] ''src'' ''app''))
         (encodeFilePathKey ''app'' @ ''/'' @ ''b__DOT__js'') = Some ''B''
   \<and> \<not> files_has (snd (rename_file [(''src/a__DOT__js'', ''A''), (''src/b__DOT__js'', ''B''),
          (''lib/c__DOT__js'', ''C''), (''README'', ''R'')] ''src'' ''app'')) ''src/b__DOT__js''
   \<and> files_get (snd (rename_file [(''src/a__DOT__js'', ''A''), (''src/b__DOT__js'', ''B''),
          (''lib/c__DOT__js'', ''C''), (''README'', ''R'')] ''README'' ''README.md''))
         (encodeFilePathKey ''README.md'')
       = files_get [(''src/a__DOT__js'', ''A''), (''src/b__DOT__js'', ''B''), (''lib/c__DOT__js'', ''C''),
          (''README'', ''R'')] (encodeFilePathKey ''README'')"
proof -
  let ?F = "[(''src/a__DOT__js'', ''A''), (''src/b__DOT__js'', ''B''), (''lib/c__DOT__js'', ''C''),
          (''README'', ''R'')] :: string files"
  have d: "distinct (files_keys ?F)"
    by (simp add: files_keys_def)
  have c1: "files_has ?F (encodeFilePathKey ''lib'')
      \<or> (\<exists>k\<in>set (files_keys ?F). startsWith k (encodeFilePathKey ''lib'' @ ''/''))"
    by (simp add: files_keys_def startsWith_def)
  have c2: "\<not> files_has ?F (encodeFilePathKey ''app'')
      \<and> \<not> (\<exists>k\<in>set (files_keys ?F). startsWith k (encodeFilePathKey ''app'' @ ''/''))
      \<and> \<not> files_has ?F (encodeFilePathKey ''src'')
      \<and> (\<exists>k\<in>set (files_keys ?F). startsWith k (encodeFilePathKey ''src'' @ ''/''))"
    by (simp add: files_keys_def startsWith_def files_has_def)
  have c2a: "files_get ?F (encodeFilePathKey ''src'' @ ''/'' @ ''b__DOT__js'') = Some ''B''"
    by (simp add: files_get_def)
  have c2b: "\<not> startsWith (encodeFilePathKey ''app'' @ ''/'') (encodeFilePathKey ''src'' @ ''/'')"
    by (simp add: startsWith_def)
  have c2c: "startsWith ''src/b__DOT__js'' (encodeFilePathKey ''src'' @ ''/'')"
    by (simp add: startsWith_def)
  have c3: "\<not> files_has ?F (encodeFilePathKey ''README.md'')
      \<and> \<not> (\<exists>k\<in>set (files_keys ?F). startsWith k (encodeFilePathKey ''README.md'' @ ''/''))
      \<and> files_has ?F (encodeFilePathKey ''README'')"
    by (simp add: files_keys_def startsWith_def files_has_def)
  from rename_file_atomic [OF d, where P = "''src''" and Q = "''lib''"] c1
  have r1: "fst (rename_file ?F ''src'' ''lib'') \<noteq> None \<and> snd (rename_file ?F ''src'' ''lib'') = ?F"
    by blast
  from rename_file_atomic [OF d, where P = "''src''" and Q = "''app''"] c2 c2a c2b c2c
  have r2: "fst (rename_file ?F ''src'' ''app'') = None
      \<and> files_get (snd (rename_file ?F ''src'' ''app''))
           (encodeFilePathKey ''app'' @ ''/'' @ ''b__DOT__js'') = Some ''B''
      \<and> \<not> files_has (snd (rename_file ?F ''src'' ''app'')) ''src/b__DOT__js''"
    by blast
  from rename_file_atomic [OF d, where P = "''README''" and Q = "''README.md''"] c3
  have r3: "files_get (snd (rename_file ?F ''README'' ''README.md'')) (encodeFilePathKey ''README.md'')
      = files_get ?F (encodeFilePathKey ''README'')"
    by blast
  from r1 r2 r3 show ?thesis by blast
qed

text \<open>
  The claim as the specification words it moves every key under \<open>P\<close> plus separator for
  every file store. A store may hold the key \<open>a\<close> and the key \<open>a/x\<close> at once: the routes
  that create and upload files test the new key only. There the route sees a file, the
  rename of \<open>a\<close> to \<open>c\<close> is accepted with nothing at the destination, only the key \<open>a\<close>
  moves, and \<open>a/x\<close> remains under the old prefix.
\<close>

theorem rename_file_atomic_counterexample:
  "distinct (files_keys [(''a'', ''F''), (''a/x'', ''X'')])
   \<and> \<not> files_has [(''a'', ''F''), (''a/x'', ''X'')] (encodeFilePathKey ''c'')
   \<and> \<not> list_ex (\<lambda>k. startsWith k (encodeFilePathKey ''c'' @ ''/''))
          (files_keys [(''a'', ''F''), (''a/x'', ''X'')])
   \<and> startsWith ''a/x'' (encodeFilePathKey ''a'' @ ''/'')
   \<and> files_get [(''a'', ''F''), (''a/x'', ''X'')] ''a/x'' = Some ''X''
   \<and> rename_file [(''a'', ''F''), (''a/x'', ''X'')] ''a'' ''c''
       = (None, [(''a/x'', ''X''), (''c'', ''F'')])
   \<and> files_has (snd (rename_file [(''a'', ''F''), (''a/x'', ''X'')] ''a'' ''c'')) ''a/x''
   \<and> \<not> files_has (snd (rename_file [(''a'', ''F''), (''a/x'', ''X'')] ''a'' ''c''))
          (encodeFilePathKey ''c'' @ ''/'' @ ''x'')"
  by (simp add: rename_file_def move_key_def files_has_def files_get_def files_set_def
      files_delete_def files_keys_def startsWith_def Let_def)

section \<open>Properties of the console log\<close>

lemma newest_append: "newest n (newest n xs @ ys) = newest n (xs @ ys)"
proof (cases "length xs \<le> n")
  case True
  then show ?thesis by (simp add: newest_def)
next
  case False
  then show ?thesis by (simp add: newest_def add.commute)
qed

lemma saveConsoleLog_newest:
  "saveConsoleLog db t u s c = newest 5000 (db @ [row_of (t, u, s, c)])"
  by (simp add: saveConsoleLog_def newest_def row_of_def Let_def)

lemma append_all_newest:
  "append_all (newest 5000 db) evs = newest 5000 (db @ map row_of evs)"
proof (induction evs arbitrary: db)
  case Nil
  show ?case by (simp add: append_all_def)
next
  case (Cons e evs)
  obtain t u s c where e: "e = (t, u, s, c)" by (cases e) auto
  have "append_all (newest 5000 db) (e # evs)
      = append_all (saveConsoleLog (newest 5000 db) t u s c) evs"
    by (simp add: append_all_def e)
  also have "saveConsoleLog (newest 5000 db) t u s c = newest 5000 (db @ [row_of e])"
    by (simp add: saveConsoleLog_newest newest_append e)
  also have "append_all (newest 5000 (db @ [row_of e])) evs
      = newest 5000 ((db @ [row_of e]) @ map row_of evs)"
    by (rule Cons.IH)
  finally show ?case by simp
qed

lemma append_all_empty: "append_all [] evs = newest 5000 (map row_of evs)"
  using append_all_newest [of "[]" evs] by (simp add: newest_def)

lemma newest_map: "newest n (map f xs) = map f (newest n xs)"
  by (simp add: newest_def drop_map)

lemma js_slice_neg: "0 < N \<Longrightarrow> js_slice xs (- N) = newest (nat N) xs"
  by (auto simp: js_slice_def newest_def max_def nat_diff_distrib' intro: arg_cong [where f = "\<lambda>n. drop n xs"])

lemma recent_sorted:
  assumes "sorted (map cl_timestamp db)" and "0 < N"
  shows "getRecentConsoleLogs db u s N
     = newest (nat N) (map cl_content (filter (\<lambda>r. cl_userId r = u \<and> cl_serverId r = s) db))"
proof -
  have "sorted (map cl_timestamp (filter (\<lambda>r. cl_userId r = u \<and> cl_serverId r = s) db))"
    using assms(1) by (rule sorted_filter)
  then have "sort_key cl_timestamp (filter (\<lambda>r. cl_userId r = u \<and> cl_serverId r = s) db)
      = filter (\<lambda>r. cl_userId r = u \<and> cl_serverId r = s) db"
    by (rule sort_key_id_if_sorted)
  with assms(2) show ?thesis
    by (simp add: getRecentConsoleLogs_def js_slice_neg newest_map)
qed

lemma lines_of_rows:
  "map cl_content (filter (\<lambda>r. cl_userId r = u \<and> cl_serverId r = s) (map row_of evs)) = lines_of u s evs"
  by (induction evs) (auto simp: lines_of_def row_of_def)

lemma recent_append_all:
  assumes "sorted (map fst evs)" and "0 < N"
  shows "getRecentConsoleLogs (append_all [] evs) u s N = newest (nat N) (lines_of u s (newest 5000 evs))"
proof -
  have ts: "map cl_timestamp (map row_of evs) = map fst evs"
    by (induction evs) (auto simp: row_of_def)
  have "sorted (map cl_timestamp (newest 5000 (map row_of evs)))"
    unfolding newest_def drop_map [symmetric] ts using assms(1) by (rule sorted_wrt_drop)
  with assms(2) have "getRecentConsoleLogs (append_all [] evs) u s N
     = newest (nat N) (map cl_content (filter (\<lambda>r. cl_userId r = u \<and> cl_serverId r = s)
         (newest 5000 (map row_of evs))))"
    by (simp add: append_all_empty recent_sorted)
  then show ?thesis by (simp add: newest_map lines_of_rows)
qed

lemma lines_of_suffix: "suffix (lines_of u s (newest n evs)) (lines_of u s evs)"
proof -
  have "evs = take (length evs - n) evs @ newest n evs" by (simp add: newest_def)
  then have "lines_of u s evs = lines_of u s (take (length evs - n) evs) @ lines_of u s (newest n evs)"
    by (metis filter_append lines_of_def map_append)
  then show ?thesis by (auto simp: suffix_def)
qed

lemma newest_suffix: "suffix (newest n xs) xs"
  by (simp add: newest_def suffix_drop)

lemma lines_of_all: "\<forall>e\<in>set evs. fst (snd e) = u \<and> fst (snd (snd e)) = s \<Longrightarrow>
  lines_of u s evs = map (\<lambda>e. snd (snd (snd e))) evs"
  by (induction evs) (auto simp: lines_of_def)

lemma newest_newest: "newest n (newest m xs) = newest (min n m) xs"
proof -
  have "length xs - (length xs - m) - n + (length xs - m) = length xs - min n m"
    by arith
  then show ?thesis by (simp add: newest_def)
qed

lemma trimLogs_newest: "trimLogs logs = newest maxLogSize logs"
  by (simp add: trimLogs_def newest_def)

text \<open>
  With a limit of zero the slice is \<open>slice(-0)\<close>, the whole array: every retained line of
  the pair is returned.
\<close>

lemma recent_limit_zero:
  "getRecentConsoleLogs db u s 0
     = map cl_content (sort_key cl_timestamp (filter (\<lambda>r. cl_userId r = u \<and> cl_serverId r = s) db))"
  by (simp add: getRecentConsoleLogs_def js_slice_def)

text \<open>
  Claim C7, as the code has it. The persisted log is one list for all servers, bounded at
  5000 rows as a whole. For every run of appends whose clock readings do not decrease,
  starting from an empty log, and every limit \<open>N \<ge> 1\<close>:
  \<^item> the log holds the newest 5000 rows appended, whatever their pair: only the oldest
    rows are evicted;
  \<^item> \<open>recent(owner, server, N)\<close> is the newest \<open>N\<close> (or fewer) of the lines of that pair
    among those rows, in the order of the appends; it is a suffix of the lines
    appended for the pair and may be empty when other pairs have appended since;
  \<^item> when every append is for the one pair, it is the newest \<open>min N 5000\<close> lines
    appended;
  \<^item> the in-memory buffer after a push and \<open>trimLogs\<close> holds the newest 1000 lines.
\<close>

theorem console_log_fifo:
  assumes "sorted (map fst evs)" and "0 < N"
  shows "append_all [] evs = newest 5000 (map row_of evs)
       \<and> getRecentConsoleLogs (append_all [] evs) u s N
           = newest (nat N) (lines_of u s (newest 5000 evs))
       \<and> suffix (getRecentConsoleLogs (append_all [] evs) u s N) (lines_of u s evs)
       \<and> length (getRecentConsoleLogs (append_all [] evs) u s N) \<le> nat N
       \<and> ((\<forall>e\<in>set evs. fst (snd e) = u \<and> fst (snd (snd e)) = s)
            \<longrightarrow> getRecentConsoleLogs (append_all [] evs) u s N
                = newest (min (nat N) 5000) (map (\<lambda>e. snd (snd (snd e))) evs))
       \<and> trimLogs (logs @ [x]) = newest maxLogSize (logs @ [x])"
proof -
  have r: "getRecentConsoleLogs (append_all [] evs) u s N
      = newest (nat N) (lines_of u s (newest 5000 evs))"
    using assms by (rule recent_append_all)
  have "suffix (newest (nat N) (lines_of u s (newest 5000 evs))) (lines_of u s (newest 5000 evs))"
    by (rule newest_suffix)
  then have s: "suffix (newest (nat N) (lines_of u s (newest 5000 evs))) (lines_of u s evs)"
    using lines_of_suffix [of u s 5000 evs] by (rule suffix_order.trans)
  have l: "length (newest (nat N) (lines_of u s (newest 5000 evs))) \<le> nat N"
    by (simp add: newest_def)
  have a: "newest (nat N) (lines_of u s (newest 5000 evs))
      = newest (min (nat N) 5000) (map (\<lambda>e. snd (snd (snd e))) evs)"
    if all: "\<forall>e\<in>set evs. fst (snd e) = u \<and> fst (snd (snd e)) = s"
  proof -
    from all have "\<forall>e\<in>set (newest 5000 evs). fst (snd e) = u \<and> fst (snd (snd e)) = s"
      by (auto simp: newest_def dest: in_set_dropD)
    then have "lines_of u s (newest 5000 evs) = map (\<lambda>e. snd (snd (snd e))) (newest 5000 evs)"
      by (rule lines_of_all)
    then show ?thesis by (simp add: newest_map newest_newest)
  qed
  have p1: "append_all [] evs = newest 5000 (map row_of evs)"
    by (rule append_all_empty)
  have p6: "trimLogs (logs @ [x]) = newest maxLogSize (logs @ [x])"
    by (rule trimLogs_newest)
  from s have s': "suffix (getRecentConsoleLogs (append_all [] evs) u s N) (lines_of u s evs)"
    by (simp only: r)
  from l have l': "length (getRecentConsoleLogs (append_all [] evs) u s N) \<le> nat N"
    by (simp only: r)
  from a have a': "(\<forall>e\<in>set evs. fst (snd e) = u \<and> fst (snd (snd e)) = s)
            \<longrightarrow> getRecentConsoleLogs (append_all [] evs) u s N
                = newest (min (nat N) 5000) (map (\<lambda>e. snd (snd (snd e))) evs)"
    by (simp only: r) blast
  from p1 r s' l' a' p6 show ?thesis by blast
qed

theorem console_log_fifo_witness:
  "sorted (map fst [(1::nat, ''u1'', ''s1'', ''a''), (2, ''u2'', ''s2'', ''b''), (3, ''u1'', ''s1'', ''c'')])
   \<and> (0::int) < 1
   \<and> getRecentConsoleLogs
        (append_all [] [(1, ''u1'', ''s1'', ''a''), (2, ''u2'', ''s2'', ''b''), (3, ''u1'', ''s1'', ''c'')])
        ''u1'' ''s1'' 1 = [''c'']"
proof -
  let ?evs = "[(1::nat, ''u1'', ''s1'', ''a''), (2, ''u2'', ''s2'', ''b''), (3, ''u1'', ''s1'', ''c'')]"
  have h1: "sorted (map fst ?evs)" by simp
  have h2: "(0::int) < 1" by simp
  have e: "newest (nat 1) (lines_of ''u1'' ''s1'' (newest 5000 ?evs)) = [''c'']"
    by (simp add: newest_def lines_of_def)
  have "getRecentConsoleLogs (append_all [] ?evs) ''u1'' ''s1'' 1
      = newest (nat 1) (lines_of ''u1'' ''s1'' (newest 5000 ?evs))"
    by (rule console_log_fifo [OF h1 h2, THEN conjunct2, THEN conjunct1])
  from this e have "getRecentConsoleLogs (append_all [] ?evs) ''u1'' ''s1'' 1 = [''c'']"
    by (rule trans)
  with h1 h2 show ?thesis by blast
qed

text \<open>
  The claim as the specification words it bounds the lines of each pair on their own.
  Here one pair appends a single line and another pair appends 5000 lines after it:
  the first pair's only, and therefore newest, line is evicted and \<open>recent\<close> returns
  nothing for it.
\<close>

theorem console_log_fifo_counterexample:
  "lines_of ''u1'' ''s1'' ((1, ''u1'', ''s1'', ''first'') # replicate 5000 (2, ''u2'', ''s2'', ''other''))
     = [''first'']
   \<and> getRecentConsoleLogs
        (append_all [] ((1, ''u1'', ''s1'', ''first'') # replicate 5000 (2, ''u2'', ''s2'', ''other'')))
        ''u1'' ''s1'' 100 = []"
proof -
  let ?evs = "(1::nat, ''u1'', ''s1'', ''first'') # replicate 5000 (2, ''u2'', ''s2'', ''other'')"
  have "sorted (map fst ?evs)" by simp
  then have "getRecentConsoleLogs (append_all [] ?evs) ''u1'' ''s1'' 100
      = newest (nat 100) (lines_of ''u1'' ''s1'' (newest 5000 ?evs))"
    by (rule recent_append_all) simp
  moreover have "newest 5000 ?evs = replicate 5000 (2, ''u2'', ''s2'', ''other'')"
    by (simp add: newest_def)
  ultimately show ?thesis
    by (simp add: lines_of_def newest_def)
qed

section \<open>Properties of the lifecycle routes\<close>

lemmas demo_defs = demo_server_def demo_world_def demo_running_def demo_env_def demo_request_def

lemma Server_findOne_nonempty: "Server_findOne w serverId = Some server \<Longrightarrow> serverId \<noteq> []"
  by (auto simp: Server_findOne_def split: if_splits)

text \<open>
  Claim C4, as the code has it. For every server with \<open>isSuspended = true\<close>, a \<open>start\<close>
  request is rejected whoever the actor is, and the state is left as it was: no child is
  spawned, no registry entry is created and the process state is not written. When the
  actor is logged in and known and the server belongs to the target user, the rejection
  is the suspension error: the access check refuses an actor who is not an
  administrator, and the handler's own check of \<open>isSuspended\<close> refuses the
  administrator whom the access check let through.
\<close>

theorem suspended_start_rejected:
  assumes found: "Server_findOne w serverId = Some server"
    and susp: "sv_isSuspended server"
    and body: "body_serverId req = Some serverId"
  shows "(\<exists>r. fst (start_server_route w env req) = Rejected r)
       \<and> snd (start_server_route w env req) = w
       \<and> (\<forall>userId originalUserId user.
            ensureLoggedIn req = Some (userId, originalUserId)
            \<and> User_findOne w userId = Some user
            \<and> User_findOne w (js_or_str (body_userId req) userId) \<noteq> None
            \<and> sv_ownerId server = js_or_str (body_userId req) userId
          \<longrightarrow> fst (start_server_route w env req) = Rejected ServerSuspended)"
proof -
  from found have ne: "serverId \<noteq> []" by (rule Server_findOne_nonempty)
  with body have sid: "js_or_str (body_serverId req) [] = serverId"
    by (simp add: js_or_str_def)
  show ?thesis
    using found susp body ne sid
    by (auto simp: start_server_route_def ensureServerAccess_def
        split: option.splits sum.splits if_splits prod.splits)
qed

theorem suspended_start_rejected_witness:
  "Server_findOne (demo_world True) ''s1'' = Some (demo_server True)
   \<and> sv_isSuspended (demo_server True)
   \<and> User_findOne (demo_world True) ''u1'' = Some \<lparr>au_userId = ''u1'', au_isAdmin = False\<rparr>
   \<and> fst (start_server_route (demo_world True) (demo_env True) (demo_request ''u1''))
       = Rejected ServerSuspended
   \<and> snd (start_server_route (demo_world True) (demo_env True) (demo_request ''u1''))
       = demo_world True"
proof -
  have h1: "Server_findOne (demo_world True) ''s1'' = Some (demo_server True)"
    by (simp add: Server_findOne_def demo_defs)
  have h2: "sv_isSuspended (demo_server True)"
    by (simp add: demo_defs)
  have h3: "body_serverId (demo_request ''u1'') = Some ''s1''"
    by (simp add: demo_defs)
  have h4: "ensureLoggedIn (demo_request ''u1'') = Some (''u1'', ''u1'')"
    by (simp add: ensureLoggedIn_def js_or_str_def demo_defs)
  have h5: "User_findOne (demo_world True) ''u1'' = Some \<lparr>au_userId = ''u1'', au_isAdmin = False\<rparr>"
    by (simp add: User_findOne_def demo_defs)
  have h6: "js_or_str (body_userId (demo_request ''u1'')) ''u1'' = ''u1''"
    by (simp add: js_or_str_def demo_defs)
  have h7: "sv_ownerId (demo_server True) = ''u1''"
    by (simp add: demo_defs)
  note t = suspended_start_rejected [OF h1 h2 h3, of "demo_env True"]
  from t have a: "snd (start_server_route (demo_world True) (demo_env True) (demo_request ''u1''))
       = demo_world True"
    by blast
  from t h4 h5 h6 h7
  have b: "fst (start_server_route (demo_world True) (demo_env True) (demo_request ''u1''))
       = Rejected ServerSuspended"
    by (metis option.distinct(1))
  from h1 h2 h5 a b show ?thesis by blast
qed

text \<open>
  The claim as the specification words it lets a privileged actor start a suspended
  server. The administrator passes the access check, and the start route rejects the
  request all the same.
\<close>

theorem suspended_start_rejected_counterexample:
  "User_findOne (demo_world True) ''admin'' = Some \<lparr>au_userId = ''admin'', au_isAdmin = True\<rparr>
   \<and> Server_findOne (demo_world True) ''s1'' = Some (demo_server True)
   \<and> sv_isSuspended (demo_server True)
   \<and> ensureServerAccess (demo_world True) (demo_request ''admin'') ''admin''
       = Inr \<lparr>ac_server = demo_server True, ac_isServerOwner = False, ac_isAdmin = True,
              ac_targetUserId = ''u1''\<rparr>
   \<and> start_server_route (demo_world True) (demo_env True) (demo_request ''admin'')
       = (Rejected ServerSuspended, demo_world True)"
  by (simp add: start_server_route_def ensureServerAccess_def ensureLoggedIn_def
      User_findOne_def Server_findOne_def js_or_str_def demo_defs)

lemma find_filter_None: "find (\<lambda>s. f s = k) (filter (\<lambda>s. f s \<noteq> k) xs) = None"
  by (simp add: find_None_iff)

text \<open>
  Claim C2, as the code has it. An accepted deletion of a server kills the process
  registered for the (owner, server) key, if there is one, and removes its registry
  entry, and removes the server record. It leaves the persisted process state rows and
  the persisted console rows as they are, and the in-memory console too.
\<close>

theorem delete_server_effects:
  assumes login: "ensureLoggedIn req = Some (userId, originalUserId)"
    and accepted: "fst (delete_server_route w req) = Accepted"
  shows "getProcess (snd (delete_server_route w req)) (js_or_str (body_userId req) userId)
           (js_or_str (body_serverId req) []) = None
       \<and> (\<forall>h. getProcess w (js_or_str (body_userId req) userId) (js_or_str (body_serverId req) []) = Some h
            \<longrightarrow> signals (snd (delete_server_route w req)) = signals w @ [(h, SIGTERM)])
       \<and> (getProcess w (js_or_str (body_userId req) userId) (js_or_str (body_serverId req) []) = None
            \<longrightarrow> signals (snd (delete_server_route w req)) = signals w)
       \<and> Server_findOne (snd (delete_server_route w req)) (js_or_str (body_serverId req) []) = None
       \<and> appProcessState (snd (delete_server_route w req)) = appProcessState w
       \<and> appConsoleLogs (snd (delete_server_route w req)) = appConsoleLogs w
       \<and> consoleLogs (snd (delete_server_route w req)) = consoleLogs w"
proof (cases "getProcess w (js_or_str (body_userId req) userId) (js_or_str (body_serverId req) [])")
  case None
  with login accepted show ?thesis
    by (auto simp: delete_server_route_def Let_def logServerEvent_def Server_findOne_def
        Server_deleteOne_def find_filter_None getProcess_def
        split: option.splits sum.splits if_splits)
next
  case (Some h)
  then obtain procs where procs: "runningProcesses w (js_or_str (body_userId req) userId) = Some procs"
    by (auto simp: getProcess_def split: option.splits)
  with Some login accepted show ?thesis
    by (auto simp: delete_server_route_def Let_def logServerEvent_def Server_findOne_def
        Server_deleteOne_def find_filter_None getProcess_def delete_process_def state_of_def
        split: option.splits sum.splits if_splits)
qed

lemmas route_defs =
  start_server_route_def stop_server_route_def delete_server_route_def
  ensureLoggedIn_def ensureServerAccess_def User_findOne_def Server_findOne_def
  Server_deleteOne_def js_or_str_def getProcess_def

lemmas step_defs =
  startServerInBackground_def start_cleanup_def start_reset_def start_materialize_def
  start_user_packages_def start_install_def start_spawn_def npm_output_def
  on_close_def on_error_def on_data_def delete_process_def
  log_send_def log_save_send_def log_trim_send_save_def
  push_console_def trim_console_def save_console_def clear_console_def set_state_def
  broadcast_def initializeServerLogs_def logServerEvent_def logKey_def
  formatConsoleOutput_def and_then_def try_catch_def state_of_def
  saveConsoleLog_def clearConsoleLogs_def setProcessState_def trimLogs_def maxLogSize_def

theorem delete_server_effects_witness:
  "ensureLoggedIn (demo_request ''u1'') = Some (''u1'', ''u1'')
   \<and> fst (delete_server_route demo_running (demo_request ''u1'')) = Accepted
   \<and> getProcess demo_running ''u1'' ''s1'' = Some 7
   \<and> getProcess (snd (delete_server_route demo_running (demo_request ''u1''))) ''u1'' ''s1'' = None
   \<and> signals (snd (delete_server_route demo_running (demo_request ''u1''))) = [(7, SIGTERM)]
   \<and> Server_findOne (snd (delete_server_route demo_running (demo_request ''u1''))) ''s1'' = None
   \<and> appProcessState (snd (delete_server_route demo_running (demo_request ''u1'')))
       = appProcessState demo_running
   \<and> appConsoleLogs (snd (delete_server_route demo_running (demo_request ''u1'')))
       = appConsoleLogs demo_running"
proof -
  have h1: "ensureLoggedIn (demo_request ''u1'') = Some (''u1'', ''u1'')"
    by (simp add: ensureLoggedIn_def js_or_str_def demo_defs)
  have h2: "fst (delete_server_route demo_running (demo_request ''u1'')) = Accepted"
    by (simp add: route_defs demo_defs Let_def)
  have e1: "js_or_str (body_userId (demo_request ''u1'')) ''u1'' = ''u1''"
    and e2: "js_or_str (body_serverId (demo_request ''u1'')) [] = ''s1''"
    by (simp_all add: js_or_str_def demo_defs)
  have h3: "getProcess demo_running ''u1'' ''s1'' = Some 7"
    by (simp add: getProcess_def demo_defs)
  have h4: "signals demo_running = []"
    by (simp add: demo_defs)
  note t = delete_server_effects [OF h1 h2, unfolded e1 e2]
  from t h3 h4 have s: "signals (snd (delete_server_route demo_running (demo_request ''u1''))) = [(7, SIGTERM)]"
    by (metis append_Nil)
  from t h1 h2 h3 s show ?thesis by blast
qed

text \<open>
  The claim as the specification words it has the deletion remove the persisted process
  state and the persisted console lines of the key. After the deletion of \<open>s1\<close> in
  \<open>demo_running\<close> the child has been signalled and the registry entry and the server
  record are gone, but the state row still says running and the console line is still
  returned; the exit of the child then sets the row to stopped and leaves it in place.
\<close>

theorem delete_server_effects_counterexample:
  "fst (delete_server_route demo_running (demo_request ''u1'')) = Accepted
   \<and> signals (snd (delete_server_route demo_running (demo_request ''u1''))) = [(7, SIGTERM)]
   \<and> appServers (snd (delete_server_route demo_running (demo_request ''u1''))) = []
   \<and> getProcessState (appProcessState (snd (delete_server_route demo_running (demo_request ''u1''))))
         ''u1'' ''s1'' = (True, Some 5)
   \<and> getRecentConsoleLogs (appConsoleLogs (snd (delete_server_route demo_running (demo_request ''u1''))))
         ''u1'' ''s1'' 100 = [Formatted (ServerStarted ''3000'')]
   \<and> appProcessState
         (state_of (on_close (snd (delete_server_route demo_running (demo_request ''u1'')))
                      ''u1'' ''s1'' None))
       = [\<lparr>ps_userId = ''u1'', ps_serverId = ''s1'', ps_isRunning = False, ps_startTime = None\<rparr>]"
  by (simp add: route_defs step_defs demo_defs Let_def getProcessState_def
      getRecentConsoleLogs_def js_slice_def)

text \<open>
  Claim C1 at a failing input. In \<open>demo_running\<close> the child 7 is registered for
  \<open>(u1, s1)\<close>. A \<open>start\<close> request of the owner is accepted; the start sequence spawns the
  child 8 and overwrites the registry entry, and child 7 receives no signal. When child 7
  exits later, its \<open>close\<close> handler deletes the entry, which is that of child 8.
\<close>

theorem start_while_running_overwrites:
  "getProcess demo_running ''u1'' ''s1'' = Some 7
   \<and> fst (start_server_route demo_running (demo_env True) (demo_request ''u1'')) = Accepted
   \<and> getProcess (snd (start_server_route demo_running (demo_env True) (demo_request ''u1'')))
        ''u1'' ''s1'' = Some 8
   \<and> spawned (snd (start_server_route demo_running (demo_env True) (demo_request ''u1'')))
       = [(7, ''index.js'', ''3000''), (8, ''index.js'', ''3000'')]
   \<and> signals (snd (start_server_route demo_running (demo_env True) (demo_request ''u1''))) = []
   \<and> getProcess
        (state_of (on_close (snd (start_server_route demo_running (demo_env True) (demo_request ''u1'')))
                     ''u1'' ''s1'' (Some 0)))
        ''u1'' ''s1'' = None"
  by (simp add: route_defs step_defs demo_defs Let_def)

text \<open>
  Claim C3 at a failing input. In every state a \<open>message\<close> event on the socket of a viewer
  changes nothing. In particular: a viewer attaches to \<open>(u1, s1)\<close> in \<open>demo_running\<close>,
  where child 7 is registered, and submits a line. The connection handler has registered
  a listener for \<open>close\<close> only, so nothing is written to the standard input of the
  child.
\<close>

theorem viewer_input_not_forwarded:
  "ws_emit w i ''message'' line = w
   \<and> getProcess (ws_connection demo_running 20 (Some ''u1'') (Some ''s1'')) ''u1'' ''s1'' = Some 7
   \<and> ws_listeners (clients (ws_connection demo_running 20 (Some ''u1'') (Some ''s1'')) ! 0) = [''close'']
   \<and> ws_emit (ws_connection demo_running 20 (Some ''u1'') (Some ''s1'')) 0 ''message'' ''ls -la''
       = ws_connection demo_running 20 (Some ''u1'') (Some ''s1'')
   \<and> stdinWrites
        (ws_emit (ws_connection demo_running 20 (Some ''u1'') (Some ''s1'')) 0 ''message'' ''ls -la'')
       = []"
  by (simp add: ws_connection_def ws_emit_def ws_on_close_def route_defs step_defs demo_defs Let_def)

text \<open>
  The start sequence guards its own removal of a stale working directory: when the
  removal fails, a warning goes to the viewers and the start goes on to spawn the child.
\<close>

lemma start_cleanup_failure_tolerated:
  "fst (start_server_route (ws_connection (demo_world False) 20 (Some ''u1'') (Some ''s1''))
          ((demo_env True)\<lparr>dirExists := True, removeError := Some ''EBUSY''\<rparr>) (demo_request ''u1''))
     = Accepted
   \<and> getProcess (snd (start_server_route (ws_connection (demo_world False) 20 (Some ''u1'') (Some ''s1''))
          ((demo_env True)\<lparr>dirExists := True, removeError := Some ''EBUSY''\<rparr>) (demo_request ''u1'')))
        ''u1'' ''s1'' = Some 8
   \<and> ws_received (clients (snd (start_server_route
          (ws_connection (demo_world False) 20 (Some ''u1'') (Some ''s1''))
          ((demo_env True)\<lparr>dirExists := True, removeError := Some ''EBUSY''\<rparr>) (demo_request ''u1''))) ! 0)
       = [Formatted (RemoveTempWarning ''EBUSY''), ClearConsoleSignal, Formatted PreparingServer,
          Formatted (ServerStarted ''3000'')]"
  by (simp add: ws_connection_def route_defs step_defs demo_defs Let_def
      getRecentConsoleLogs_def js_slice_def)

text \<open>
  Claim C6 at a failing input. A viewer is attached to \<open>(u1, s1)\<close> in \<open>demo_running\<close> and
  the owner asks to stop the server. When the removal of the working directory succeeds,
  the request is answered, the viewer receives the line and the event is logged. When
  \<open>fs.removeSync\<close> throws, the handler ends there: the child has been signalled and
  unregistered, but the request gets no answer, the viewer receives nothing and no event
  is logged. The \<open>error\<close> handler of the child calls \<open>fs.removeSync\<close> unguarded in the
  same way and ends before it sends its line.
\<close>

theorem stop_cleanup_failure_escapes:
  "fst (stop_server_route (ws_connection demo_running 20 (Some ''u1'') (Some ''s1'')) None 30
          (demo_request ''u1'')) = Some Accepted
   \<and> ws_received (clients (snd (stop_server_route
          (ws_connection demo_running 20 (Some ''u1'') (Some ''s1'')) None 30 (demo_request ''u1''))) ! 0)
       = [Formatted (ServerStarted ''3000''), Unformatted ServerStoppedInfo]
   \<and> appEventLogs (snd (stop_server_route
          (ws_connection demo_running 20 (Some ''u1'') (Some ''s1'')) None 30 (demo_request ''u1'')))
       = [(StopServerEvent, ''u1'', ''s1'')]
   \<and> fst (stop_server_route (ws_connection demo_running 20 (Some ''u1'') (Some ''s1'')) (Some ''EBUSY'') 30
          (demo_request ''u1'')) = None
   \<and> signals (snd (stop_server_route
          (ws_connection demo_running 20 (Some ''u1'') (Some ''s1'')) (Some ''EBUSY'') 30
          (demo_request ''u1''))) = [(7, SIGTERM)]
   \<and> getProcess (snd (stop_server_route
          (ws_connection demo_running 20 (Some ''u1'') (Some ''s1'')) (Some ''EBUSY'') 30
          (demo_request ''u1''))) ''u1'' ''s1'' = None
   \<and> ws_received (clients (snd (stop_server_route
          (ws_connection demo_running 20 (Some ''u1'') (Some ''s1'')) (Some ''EBUSY'') 30
          (demo_request ''u1''))) ! 0)
       = [Formatted (ServerStarted ''3000'')]
   \<and> appEventLogs (snd (stop_server_route
          (ws_connection demo_running 20 (Some ''u1'') (Some ''s1'')) (Some ''EBUSY'') 30
          (demo_request ''u1''))) = []
   \<and> (\<exists>w. on_error (ws_connection demo_running 20 (Some ''u1'') (Some ''s1'')) (Some ''EBUSY'')
               ''u1'' ''s1'' ''spawn node ENOENT'' = Threw ''EBUSY'' w
            \<and> ws_received (clients w ! 0) = [Formatted (ServerStarted ''3000'')])"
  by (simp add: ws_connection_def route_defs step_defs demo_defs Let_def
      getRecentConsoleLogs_def js_slice_def)

section \<open>Properties of the start sequence\<close>

lemma missing_count_simps [simp]:
  "missing_count [] = 0"
  "missing_count (xs @ ys) = missing_count xs + missing_count ys"
  "missing_count (l # ls) = (if is_entry_missing l then 1 else 0) + missing_count ls"
  by (simp_all add: missing_count_def)

lemma deliver_Nil [simp]: "deliver u s [] c = c"
  by (simp add: deliver_def)

lemma deliver_deliver [simp]: "deliver u s b (deliver u s a c) = deliver u s (a @ b) c"
  by (simp add: deliver_def attached_def)

lemma quiet_refl: "quiet_step u s w w"
  unfolding quiet_step_def by (auto intro!: exI [of _ "[]"] simp: map_idI)

lemma quiet_trans: "quiet_step u s w w1 \<Longrightarrow> quiet_step u s w1 w2 \<Longrightarrow> quiet_step u s w w2"
  unfolding quiet_step_def
  apply clarsimp
  subgoal for a b
    by (rule exI [of _ "a @ b"]) (simp add: comp_def)
  done

lemma broadcast_deliver: "clients (broadcast w u s l) = map (deliver u s [l]) (clients w)"
  by (simp add: broadcast_def deliver_def attached_def)

lemma broadcast_fields [simp]:
  "spawned (broadcast w u s l) = spawned w"
  "signals (broadcast w u s l) = signals w"
  "stdinWrites (broadcast w u s l) = stdinWrites w"
  "appProcessState (broadcast w u s l) = appProcessState w"
  "runningProcesses (broadcast w u s l) = runningProcesses w"
  "consoleLogs (broadcast w u s l) = consoleLogs w"
  "appConsoleLogs (broadcast w u s l) = appConsoleLogs w"
  by (simp_all add: broadcast_def)

lemma quiet_broadcast: "\<not> is_entry_missing l \<Longrightarrow> quiet_step u s w (broadcast w u s l)"
  unfolding quiet_step_def
  by (auto simp: getProcess_def broadcast_deliver intro!: exI [of _ "[l]"])

lemma quiet_same_clients:
  "spawned w' = spawned w \<Longrightarrow> signals w' = signals w \<Longrightarrow> stdinWrites w' = stdinWrites w
   \<Longrightarrow> appProcessState w' = appProcessState w
   \<Longrightarrow> (\<And>a b. getProcess w' a b = getProcess w a b) \<Longrightarrow> clients w' = clients w
   \<Longrightarrow> quiet_step u s w w'"
  unfolding quiet_step_def by (auto intro!: exI [of _ "[]"] simp: map_idI)

lemma quiet_initialize: "quiet_step u s w (initializeServerLogs w now a b)"
  by (rule quiet_same_clients)
     (auto simp: initializeServerLogs_def getProcess_def split: option.splits)

lemma initialize_defined: "consoleLogs (initializeServerLogs w now a b) (logKey a b) \<noteq> None"
  by (auto simp: initializeServerLogs_def split: option.splits)

lemma pair_lines_initialize [simp]: "pair_lines u s (initializeServerLogs w now a b) = pair_lines u s w"
  by (simp add: pair_lines_def initializeServerLogs_def)

lemma push_console_Done:
  "consoleLogs w key = Some ls \<Longrightarrow>
   push_console w key l = Done (w\<lparr>consoleLogs := (consoleLogs w)(key \<mapsto> ls @ [l])\<rparr>)"
  by (simp add: push_console_def)

lemma quiet_push: "quiet_step u s w (w\<lparr>consoleLogs := x\<rparr>)"
  by (rule quiet_same_clients) (simp_all add: getProcess_def)

lemma quiet_save: "quiet_step u s w (save_console w now a b l)"
  by (rule quiet_same_clients) (simp_all add: getProcess_def save_console_def)

lemma quiet_clear: "quiet_step u s w (clear_console w a b)"
  by (rule quiet_same_clients) (simp_all add: getProcess_def clear_console_def)

lemma quiet_trim: "quiet_step u s w (trim_console w key)"
  by (rule quiet_same_clients) (simp_all add: getProcess_def trim_console_def split: option.splits)

lemma set_saveConsoleLog: "set (saveConsoleLog db now u s l)
    \<subseteq> insert \<lparr>cl_userId = u, cl_serverId = s, cl_timestamp = now, cl_content = l\<rparr> (set db)"
  by (auto simp: saveConsoleLog_def Let_def dest: in_set_dropD)

lemma missing_count_0_iff: "missing_count ls = 0 \<longleftrightarrow> (\<forall>l\<in>set ls. \<not> is_entry_missing l)"
  by (simp add: missing_count_def filter_empty_conv)

lemma pair_lines_save_clean:
  assumes "missing_count (pair_lines u s w) = 0" and "\<not> is_entry_missing l"
  shows "missing_count (pair_lines u s (save_console w now a b l)) = 0"
  using assms set_saveConsoleLog [of "appConsoleLogs w" now a b l]
  by (auto simp: missing_count_0_iff pair_lines_def save_console_def)

lemma pair_lines_clear: "missing_count (pair_lines u s (clear_console w u s)) = 0"
  by (simp add: pair_lines_def clear_console_def clearConsoleLogs_def missing_count_def)

lemma pair_lines_fields [simp]:
  "pair_lines u s (w\<lparr>consoleLogs := x\<rparr>) = pair_lines u s w"
  "pair_lines u s (broadcast w a b l) = pair_lines u s w"
  "pair_lines u s (trim_console w key) = pair_lines u s w"
  by (simp_all add: pair_lines_def trim_console_def split: option.splits)

lemma consoleLogs_fields [simp]:
  "consoleLogs (save_console w now a b l) = consoleLogs w"
  "consoleLogs (clear_console w a b) = consoleLogs w"
  by (simp_all add: save_console_def clear_console_def)

lemma log_save_send_clean:
  assumes ok: "ok_since u s w0 w" and l: "\<not> is_entry_missing l"
  shows "\<exists>w1. log_save_send w now u s l = Done w1 \<and> ok_since u s w0 w1"
proof -
  from ok obtain ls where ls: "consoleLogs w (logKey u s) = Some ls" "missing_count ls = 0"
    and db: "missing_count (pair_lines u s w) = 0" and q: "quiet_step u s w0 w"
    by (auto simp: ok_since_def logs_clean_def)
  let ?w1 = "w\<lparr>consoleLogs := (consoleLogs w)(logKey u s \<mapsto> ls @ [l])\<rparr>"
  let ?w2 = "save_console ?w1 now u s l"
  let ?w3 = "broadcast ?w2 u s l"
  have eq: "log_save_send w now u s l = Done ?w3"
    by (simp add: log_save_send_def push_console_Done [OF ls(1)] and_then_def)
  have "quiet_step u s w ?w1" by (rule quiet_push)
  moreover have "quiet_step u s ?w1 ?w2" by (rule quiet_save)
  moreover have "quiet_step u s ?w2 ?w3" using l by (rule quiet_broadcast)
  ultimately have "quiet_step u s w0 ?w3" using q by (blast intro: quiet_trans)
  moreover have "missing_count (pair_lines u s ?w2) = 0"
    using db l by (intro pair_lines_save_clean) simp_all
  then have "logs_clean u s ?w3"
    using ls l by (simp add: logs_clean_def)
  ultimately show ?thesis using eq by (simp add: ok_since_def)
qed

lemma log_send_clean:
  assumes ok: "ok_since u s w0 w" and l: "\<not> is_entry_missing l"
  shows "\<exists>w1. log_send w u s l = Done w1 \<and> ok_since u s w0 w1"
proof -
  from ok obtain ls where ls: "consoleLogs w (logKey u s) = Some ls" "missing_count ls = 0"
    and db: "missing_count (pair_lines u s w) = 0" and q: "quiet_step u s w0 w"
    by (auto simp: ok_since_def logs_clean_def)
  let ?w1 = "w\<lparr>consoleLogs := (consoleLogs w)(logKey u s \<mapsto> ls @ [l])\<rparr>"
  let ?w3 = "broadcast ?w1 u s l"
  have eq: "log_send w u s l = Done ?w3"
    by (simp add: log_send_def push_console_Done [OF ls(1)] and_then_def)
  have "quiet_step u s w ?w1" by (rule quiet_push)
  moreover have "quiet_step u s ?w1 ?w3" using l by (rule quiet_broadcast)
  ultimately have "quiet_step u s w0 ?w3" using q by (blast intro: quiet_trans)
  moreover have "logs_clean u s ?w3"
    using ls l db by (simp add: logs_clean_def)
  ultimately show ?thesis using eq by (simp add: ok_since_def)
qed

lemma npm_output_clean:
  assumes ok: "ok_since u s w0 w"
  shows "\<exists>w1. npm_output w now u s out = Done w1 \<and> ok_since u s w0 w1"
proof (cases "out = []")
  case True
  with ok show ?thesis by (simp add: npm_output_def)
next
  case False
  have "\<not> is_entry_missing (formatConsoleOutput (ProcessOutput out))"
    by (simp add: formatConsoleOutput_def)
  from log_save_send_clean [OF ok this] False show ?thesis
    by (simp add: npm_output_def)
qed

lemma install_ok_clean:
  assumes ok: "ok_since u s w0 w" and l: "\<not> is_entry_missing l"
  shows "\<exists>w1. and_then (npm_output w now u s out)
            (\<lambda>w. and_then (npm_output w now u s err) (\<lambda>w. log_save_send w now u s l)) = Done w1
          \<and> ok_since u s w0 w1"
proof -
  from npm_output_clean [OF ok] obtain wa
    where a: "npm_output w now u s out = Done wa" "ok_since u s w0 wa" by blast
  from npm_output_clean [OF a(2)] obtain wb
    where b: "npm_output wa now u s err = Done wb" "ok_since u s w0 wb" by blast
  from log_save_send_clean [OF b(2) l] obtain wc
    where c: "log_save_send wb now u s l = Done wc" "ok_since u s w0 wc" by blast
  from a b c show ?thesis by (simp add: and_then_def)
qed

lemma start_user_packages_clean:
  assumes ok: "ok_since u s w0 w"
  shows "\<exists>w1. start_user_packages w env server s u = Done w1 \<and> ok_since u s w0 w1"
proof -
  define pk where "pk = (case map_of (sv_startupSettings server) ''packages'' of
               None \<Rightarrow> [] | Some userPackages \<Rightarrow> split_ws userPackages)"
  show ?thesis
  proof (cases "pk = []")
    case True
    with ok show ?thesis by (simp add: start_user_packages_def pk_def [symmetric])
  next
    case False
    have "\<not> is_entry_missing (formatConsoleOutput (InstallingUserPackages pk))"
      by (simp add: formatConsoleOutput_def)
    from log_send_clean [OF ok this] obtain wa
      where a: "log_send w u s (formatConsoleOutput (InstallingUserPackages pk)) = Done wa"
        "ok_since u s w0 wa" by blast
    show ?thesis
    proof (cases "userInstall env")
      case (InstallOk out err)
      have "\<not> is_entry_missing (formatConsoleOutput UserPackagesInstalled)"
        by (simp add: formatConsoleOutput_def)
      from install_ok_clean [OF a(2) this, of "clock env" out err] obtain wb
        where "and_then (npm_output wa (clock env) u s out)
            (\<lambda>w. and_then (npm_output w (clock env) u s err)
               (\<lambda>w. log_save_send w (clock env) u s (formatConsoleOutput UserPackagesInstalled))) = Done wb"
          "ok_since u s w0 wb" by blast
      with False a InstallOk show ?thesis
        by (simp add: start_user_packages_def pk_def [symmetric] and_then_def try_catch_def)
    next
      case (InstallFailed m)
      have "\<not> is_entry_missing (formatConsoleOutput (UserPackagesFailed m))"
        by (simp add: formatConsoleOutput_def)
      from log_send_clean [OF a(2) this] obtain wb
        where "log_send wa u s (formatConsoleOutput (UserPackagesFailed m)) = Done wb"
          "ok_since u s w0 wb" by blast
      with False a InstallFailed show ?thesis
        by (simp add: start_user_packages_def pk_def [symmetric] and_then_def try_catch_def)
    qed
  qed
qed

lemma start_reset_clean:
  "\<exists>w1. start_reset w env s u = Done w1 \<and> ok_since u s w w1"
proof -
  let ?wa = "initializeServerLogs w (clock env) u s"
  let ?wb = "?wa\<lparr>consoleLogs := (consoleLogs ?wa)(logKey u s \<mapsto> [])\<rparr>"
  let ?wc = "clear_console ?wb u s"
  let ?wd = "broadcast ?wc u s ClearConsoleSignal"
  have "quiet_step u s w ?wa" by (rule quiet_initialize)
  moreover have "quiet_step u s ?wa ?wb" by (rule quiet_push)
  moreover have "quiet_step u s ?wb ?wc" by (rule quiet_clear)
  moreover have "quiet_step u s ?wc ?wd" by (rule quiet_broadcast) simp
  ultimately have q: "quiet_step u s w ?wd" by (blast intro: quiet_trans)
  have "missing_count (pair_lines u s ?wc) = 0" by (rule pair_lines_clear)
  then have "logs_clean u s ?wd" by (simp add: logs_clean_def)
  with q have ok: "ok_since u s w ?wd" by (simp add: ok_since_def)
  have "\<not> is_entry_missing (formatConsoleOutput PreparingServer)"
    by (simp add: formatConsoleOutput_def)
  from log_save_send_clean [OF ok this, of "clock env"] show ?thesis
    by (simp add: start_reset_def Let_def)
qed

lemma start_cleanup_quiet:
  assumes "ensureDirError env = None"
  shows "\<exists>w1. start_cleanup w env s u = Done w1 \<and> quiet_step u s w w1"
proof (cases "dirExists env \<and> removeError env \<noteq> None")
  case False
  with assms show ?thesis
    by (auto simp: start_cleanup_def and_then_def quiet_refl split: option.splits)
next
  case True
  then obtain code where code: "removeError env = Some code" by auto
  let ?wa = "initializeServerLogs w (clock env) u s"
  obtain ls where ls: "consoleLogs ?wa (logKey u s) = Some ls"
    using initialize_defined [of w "clock env" u s] by auto
  let ?l = "formatConsoleOutput (RemoveTempWarning code)"
  let ?wb = "?wa\<lparr>consoleLogs := (consoleLogs ?wa)(logKey u s \<mapsto> ls @ [?l])\<rparr>"
  let ?wc = "trim_console ?wb (logKey u s)"
  let ?wd = "broadcast ?wc u s ?l"
  have eq: "start_cleanup w env s u = Done ?wd"
    using True code assms
    by (simp add: start_cleanup_def push_console_Done [OF ls] and_then_def)
  have "quiet_step u s w ?wa" by (rule quiet_initialize)
  moreover have "quiet_step u s ?wa ?wb" by (rule quiet_push)
  moreover have "quiet_step u s ?wb ?wc" by (rule quiet_trim)
  moreover have "quiet_step u s ?wc ?wd"
    by (rule quiet_broadcast) (simp add: formatConsoleOutput_def)
  ultimately have "quiet_step u s w ?wd" by (blast intro: quiet_trans)
  with eq show ?thesis by blast
qed

lemma saveConsoleLog_snoc:
  "\<exists>k. saveConsoleLog db now u s l
     = drop k db @ [\<lparr>cl_userId = u, cl_serverId = s, cl_timestamp = now, cl_content = l\<rparr>]"
proof (cases "length db + 1 > 5000")
  case True
  then show ?thesis
    by (intro exI [of _ "length db + 1 - 5000"]) (simp add: saveConsoleLog_def Let_def)
next
  case False
  then show ?thesis
    by (intro exI [of _ 0]) (simp add: saveConsoleLog_def Let_def)
qed

lemma pair_lines_save_missing:
  assumes "missing_count (pair_lines u s w) = 0" and "is_entry_missing l"
  shows "missing_count (pair_lines u s (save_console w now u s l)) = 1"
proof -
  obtain k where k: "saveConsoleLog (appConsoleLogs w) now u s l
     = drop k (appConsoleLogs w) @ [\<lparr>cl_userId = u, cl_serverId = s, cl_timestamp = now, cl_content = l\<rparr>]"
    using saveConsoleLog_snoc [of "appConsoleLogs w" now u s l] by blast
  from assms(1) have "\<forall>r\<in>set (drop k (appConsoleLogs w)).
      cl_userId r = u \<and> cl_serverId r = s \<longrightarrow> \<not> is_entry_missing (cl_content r)"
    by (auto simp: missing_count_0_iff pair_lines_def dest: in_set_dropD)
  then have "missing_count (map cl_content
      (filter (\<lambda>r. cl_userId r = u \<and> cl_serverId r = s) (drop k (appConsoleLogs w)))) = 0"
    by (auto simp: missing_count_0_iff)
  with assms(2) show ?thesis
    by (simp add: pair_lines_def save_console_def k)
qed

text \<open>
  Claim C5. When creating the working directory and writing the files succeed and the
  main file (default \<open>index.js\<close>) is then absent from the working directory, the start
  ends normally before the spawn: no child is spawned, the registry answers for every
  key as before, the process state rows are untouched, so the server remains stopped;
  and exactly one line saying that the main file is missing is produced: the in-memory
  console of the pair, emptied at the beginning of the start, holds exactly one such
  line, its last; the persisted lines of the pair, cleared at the beginning too, hold
  exactly one; and every attached open viewer of the pair has received exactly one more
  of them than before, the other viewers nothing. (Lines are told apart by the
  statement that wrote them, not by their text.)
\<close>

theorem entry_script_missing_aborts:
  assumes dir: "ensureDirError env = None"
    and files: "writeFilesError env = None"
    and missing: "\<not> mainFileExists env"
  shows "\<exists>w'. startServerInBackground w env serverId targetUserId server = Done w'
      \<and> spawned w' = spawned w
      \<and> (\<forall>u s. getProcess w' u s = getProcess w u s)
      \<and> appProcessState w' = appProcessState w
      \<and> (\<exists>ls. consoleLogs w' (logKey targetUserId serverId) = Some ls
            \<and> missing_count ls = 1
            \<and> last ls = Formatted (MainFileMissing
                 (js_or_str (map_of (sv_startupSettings server) ''mainFile'') ''index.js'')))
      \<and> missing_count (pair_lines targetUserId serverId w') = 1
      \<and> length (clients w') = length (clients w)
      \<and> (\<forall>i<length (clients w).
            if attached targetUserId serverId (clients w ! i)
            then missing_count (ws_received (clients w' ! i))
                 = missing_count (ws_received (clients w ! i)) + 1
            else clients w' ! i = clients w ! i)"
proof -
  let ?u = targetUserId and ?s = serverId
  let ?M = "formatConsoleOutput (MainFileMissing
                 (js_or_str (map_of (sv_startupSettings server) ''mainFile'') ''index.js''))"
  have M: "is_entry_missing ?M" by (simp add: formatConsoleOutput_def)
  from start_cleanup_quiet [OF dir] obtain w1
    where w1: "start_cleanup w env ?s ?u = Done w1" "quiet_step ?u ?s w w1" by blast
  from start_reset_clean obtain w2
    where w2: "start_reset w1 env ?s ?u = Done w2" "ok_since ?u ?s w1 w2" by blast
  from files have w2m: "start_materialize w2 env = Done w2"
    by (simp add: start_materialize_def)
  from start_user_packages_clean [OF w2(2)] obtain w3
    where w3: "start_user_packages w2 env server ?s ?u = Done w3" "ok_since ?u ?s w1 w3" by blast
  from w3(2) obtain ls where ls: "consoleLogs w3 (logKey ?u ?s) = Some ls" "missing_count ls = 0"
    and db: "missing_count (pair_lines ?u ?s w3) = 0" and q13: "quiet_step ?u ?s w1 w3"
    by (auto simp: ok_since_def logs_clean_def)
  let ?wa = "w3\<lparr>consoleLogs := (consoleLogs w3)(logKey ?u ?s \<mapsto> ls @ [?M])\<rparr>"
  let ?wb = "save_console ?wa (clock env) ?u ?s ?M"
  let ?w' = "broadcast ?wb ?u ?s ?M"
  have last: "log_save_send w3 (clock env) ?u ?s ?M = Done ?w'"
    by (simp add: log_save_send_def push_console_Done [OF ls(1)] and_then_def)
  have run: "startServerInBackground w env ?s ?u server = Done ?w'"
    using w1(1) w2(1) w2m w3(1) missing last
    by (simp add: startServerInBackground_def and_then_def try_catch_def Let_def)
  from w1(2) q13 have q: "quiet_step ?u ?s w w3" by (rule quiet_trans)
  then obtain sent where sent: "missing_count sent = 0"
      "clients w3 = map (deliver ?u ?s sent) (clients w)"
    and keep: "spawned w3 = spawned w" "appProcessState w3 = appProcessState w"
      "\<forall>a b. getProcess w3 a b = getProcess w a b"
    by (auto simp: quiet_step_def)
  have cl: "clients ?w' = map (deliver ?u ?s (sent @ [?M])) (clients w)"
    by (simp add: broadcast_deliver save_console_def sent(2))
  have c1: "spawned ?w' = spawned w"
    using keep(1) by (simp add: save_console_def)
  have c2: "\<forall>u s. getProcess ?w' u s = getProcess w u s"
    using keep(3) by (simp add: getProcess_def save_console_def)
  have c3: "appProcessState ?w' = appProcessState w"
    using keep(2) by (simp add: save_console_def)
  have c4: "\<exists>ls'. consoleLogs ?w' (logKey ?u ?s) = Some ls' \<and> missing_count ls' = 1
      \<and> last ls' = Formatted (MainFileMissing
                 (js_or_str (map_of (sv_startupSettings server) ''mainFile'') ''index.js''))"
    using ls(2) M by (simp add: formatConsoleOutput_def)
  have "missing_count (pair_lines ?u ?s ?wa) = 0" using db by simp
  then have "missing_count (pair_lines ?u ?s ?wb) = 1"
    using M by (rule pair_lines_save_missing)
  then have c5: "missing_count (pair_lines ?u ?s ?w') = 1" by simp
  have c6: "length (clients ?w') = length (clients w)" by (simp add: cl)
  have c7: "\<forall>i<length (clients w).
            if attached ?u ?s (clients w ! i)
            then missing_count (ws_received (clients ?w' ! i))
                 = missing_count (ws_received (clients w ! i)) + 1
            else clients ?w' ! i = clients w ! i"
    using sent(1) M by (simp add: cl deliver_def)
  from run c1 c2 c3 c4 c5 c6 c7 show ?thesis by blast
qed

theorem entry_script_missing_aborts_witness:
  "ensureDirError (demo_env False) = None
   \<and> writeFilesError (demo_env False) = None
   \<and> \<not> mainFileExists (demo_env False)
   \<and> (\<exists>w'. startServerInBackground (demo_world False) (demo_env False) ''s1'' ''u1''
               ((demo_server False)\<lparr>sv_files := []\<rparr>) = Done w'
          \<and> spawned w' = []
          \<and> getProcess w' ''u1'' ''s1'' = None
          \<and> appProcessState w' = []
          \<and> missing_count (pair_lines ''u1'' ''s1'' w') = 1)
   \<and> consoleLogs
        (state_of (startServerInBackground (demo_world False) (demo_env False) ''s1'' ''u1''
                     ((demo_server False)\<lparr>sv_files := []\<rparr>))) ''u1-s1''
       = Some [Formatted PreparingServer, Formatted (MainFileMissing ''index.js'')]"
proof -
  have h1: "ensureDirError (demo_env False) = None"
    and h2: "writeFilesError (demo_env False) = None"
    and h3: "\<not> mainFileExists (demo_env False)"
    by (simp_all add: demo_env_def)
  have e1: "spawned (demo_world False) = []"
    and e2: "getProcess (demo_world False) ''u1'' ''s1'' = None"
    and e3: "appProcessState (demo_world False) = []"
    by (simp_all add: demo_world_def getProcess_def)
  from entry_script_missing_aborts [OF h1 h2 h3, of "demo_world False" "''s1''" "''u1''"
      "(demo_server False)\<lparr>sv_files := []\<rparr>"]
  obtain w' where w': "startServerInBackground (demo_world False) (demo_env False) ''s1'' ''u1''
               ((demo_server False)\<lparr>sv_files := []\<rparr>) = Done w'"
      "spawned w' = spawned (demo_world False)"
      "\<forall>u s. getProcess w' u s = getProcess (demo_world False) u s"
      "appProcessState w' = appProcessState (demo_world False)"
      "missing_count (pair_lines ''u1'' ''s1'' w') = 1"
    by blast
  from w' e1 e2 e3 have a: "\<exists>w'. startServerInBackground (demo_world False) (demo_env False) ''s1'' ''u1''
               ((demo_server False)\<lparr>sv_files := []\<rparr>) = Done w'
          \<and> spawned w' = []
          \<and> getProcess w' ''u1'' ''s1'' = None
          \<and> appProcessState w' = []
          \<and> missing_count (pair_lines ''u1'' ''s1'' w') = 1"
    by metis
  have b: "consoleLogs
        (state_of (startServerInBackground (demo_world False) (demo_env False) ''s1'' ''u1''
                     ((demo_server False)\<lparr>sv_files := []\<rparr>))) ''u1-s1''
       = Some [Formatted PreparingServer, Formatted (MainFileMissing ''index.js'')]"
    by (simp add: startServerInBackground_def start_cleanup_def start_reset_def
        start_materialize_def start_user_packages_def log_save_send_def push_console_def
        save_console_def clear_console_def broadcast_def initializeServerLogs_def logKey_def
        formatConsoleOutput_def and_then_def try_catch_def state_of_def js_or_str_def
        demo_server_def demo_world_def demo_env_def Let_def)
  from h1 h2 h3 a b show ?thesis by blast
qed

end
